theory Spec2Isabelle
  imports Main "HOL-Library.Sublist"
begin

section \<open>JavaScript strings\<close>

text \<open>
  The source is \<open>src/account_check/web-server.js\<close>. The file holds two programs: the web
  server (lines 1 to 183), with a probe of its own, and the batch checker
  \<open>check-claude-cli-accounts.js\<close> (lines 183 to 1059), with the probe, the account
  validator, the batch loop, the report and the notification.

  A JavaScript string is modelled as a \<^typ>\<open>string\<close>, one \<^typ>\<open>char\<close> per code unit. The
  fixed texts of the source that are not ASCII (user-facing messages and labels) are
  named constants holding an English gloss; no property below depends on their content.
\<close>

fun startsWith :: "string \<Rightarrow> string \<Rightarrow> bool" where
  "startsWith s [] = True"
| "startsWith [] (p # ps) = False"
| "startsWith (c # cs) (p # ps) = (c = p \<and> startsWith cs ps)"

text \<open>\<open>s.includes(p)\<close>: \<open>p\<close> occurs in \<open>s\<close> as a contiguous, case-sensitive substring.\<close>

fun str_includes :: "string \<Rightarrow> string \<Rightarrow> bool" where
  "str_includes [] p = (p = [])"
| "str_includes (c # cs) p = (startsWith (c # cs) p \<or> str_includes cs p)"

text \<open>\<open>s.substring(0, n)\<close> for a literal \<open>n \<ge> 0\<close>.\<close>

definition substring0 :: "string \<Rightarrow> nat \<Rightarrow> string" where
  "substring0 s n = take n s"

definition isWhiteSpace :: "char \<Rightarrow> bool" where
  "isWhiteSpace c = (c \<in> set [CHR '' '', CHR 0x09, CHR 0x0A, CHR 0x0B, CHR 0x0C, CHR 0x0D, CHR 0xA0])"

definition trim :: "string \<Rightarrow> string" where
  "trim s = rev (dropWhile isWhiteSpace (rev (dropWhile isWhiteSpace s)))"

text \<open>\<open>s.toLowerCase()\<close> on the ASCII letters; every other character is kept.\<close>

definition toLowerChar :: "char \<Rightarrow> char" where
  "toLowerChar c =
     (let n = of_char c :: nat in if 65 \<le> n \<and> n \<le> 90 then char_of (n + 32) else c)"

definition toLowerCase :: "string \<Rightarrow> string" where
  "toLowerCase s = map toLowerChar s"

section \<open>The probe: \<open>testSingleModel\<close> of the batch checker\<close>

datatype status = Testing | Success | Failed | Skipped

text \<open>
  The values of \<open>result.errorType\<close>, in the order of their appearance in the source:
  the timeout handler, the five substring rules, the non-zero exit code, the fall-through,
  the \<open>error\<close> event of the child, and the skipped secondary probe.
\<close>

datatype errorType =
    Timeout | AuthFailed | RateLimited | Forbidden | NetworkError | ModelUnavailable
  | ProcessError | Unknown | LaunchFailed | SkippedTest

datatype speed = VeryFast | Fast | Slow | VerySlow

record probe_result =
  model :: string
  status :: status
  responseTime :: nat
  error :: "string option"
  response :: "string option"
  speed :: "speed option"
  actualModel :: "string option"
  errorType :: "errorType option"

text \<open>Glosses of the fixed message texts.\<close>

definition msg_timeout :: string where
  "msg_timeout = ''response timed out''"
definition msg_auth :: string where
  "msg_auth = ''API key invalid or expired''"
definition msg_rate :: string where
  "msg_rate = ''too many requests''"
definition msg_forbidden :: string where
  "msg_forbidden = ''no permission to access the model''"
definition msg_network :: string where
  "msg_network = ''network connection failed''"
definition msg_model :: string where
  "msg_model = ''the model does not exist or is unavailable''"
definition msg_exit_code :: string where
  "msg_exit_code = ''Claude CLI exit code: ''"
definition msg_no_response :: string where
  "msg_no_response = ''no valid response received''"
definition msg_unknown :: string where
  "msg_unknown = ''unknown error''"
definition msg_launch :: string where
  "msg_launch = ''cannot start Claude CLI: ''"
definition msg_skipped :: string where
  "msg_skipped = ''Sonnet 4 test failed, test skipped''"
definition prompt :: string where
  "prompt = ''What model are you, and what are your strengths?'' @ [CHR 0x0A]"
definition detected_from_response :: string where
  "detected_from_response = ''detected-from-response''"

text \<open>Decimal rendering of a number inside a template string.\<close>

fun show_nat :: "nat \<Rightarrow> string" where
  "show_nat n = (if n < 10 then [char_of (48 + n)] else show_nat (n div 10) @ [char_of (48 + n mod 10)])"

definition show_int :: "int \<Rightarrow> string" where
  "show_int i = (if i < 0 then CHR ''-'' # show_nat (nat (- i)) else show_nat (nat i))"

text \<open>The exit code passed to the \<open>close\<close> handler: a number, or \<open>null\<close> after a signal.\<close>

definition show_code :: "int option \<Rightarrow> string" where
  "show_code c = (case c of None \<Rightarrow> ''null'' | Some i \<Rightarrow> show_int i)"

text \<open>
  The success test of the \<open>close\<close> handler (line 555, and line 73 in the web server):
  \<open>code === 0 && output.length > 0 && !output.includes('Error') && !output.includes('error')\<close>.
\<close>

definition isSuccess :: "int option \<Rightarrow> string \<Rightarrow> bool" where
  "isSuccess code output =
     (code = Some 0 \<and> length output > 0 \<and> \<not> str_includes output ''Error'' \<and> \<not> str_includes output ''error'')"

definition speedOf :: "nat \<Rightarrow> speed" where
  "speedOf t = (if t < 3000 then VeryFast else if t < 8000 then Fast
                else if t < 15000 then Slow else VerySlow)"

text \<open>
  The failure branch of the batch checker (lines 575 to 603):
  \<open>combinedError = errorOutput + output\<close>, then the
  chain of substring tests, the first that holds deciding \<open>errorType\<close> and \<open>error\<close>.
\<close>

definition classifyFailure :: "int option \<Rightarrow> string \<Rightarrow> string \<Rightarrow> errorType \<times> string" where
  "classifyFailure code output errorOutput =
     (let combinedError = errorOutput @ output in
      if str_includes combinedError ''authentication'' \<or> str_includes combinedError ''unauthorized''
         \<or> str_includes combinedError ''401'' then (AuthFailed, msg_auth)
      else if str_includes combinedError ''rate limit'' \<or> str_includes combinedError ''429''
        then (RateLimited, msg_rate)
      else if str_includes combinedError ''permission'' \<or> str_includes combinedError ''403''
        then (Forbidden, msg_forbidden)
      else if str_includes combinedError ''connection'' \<or> str_includes combinedError ''network''
        then (NetworkError, msg_network)
      else if str_includes combinedError ''model'' \<or> str_includes combinedError ''not found''
        then (ModelUnavailable, msg_model)
      else if code \<noteq> Some 0 then (ProcessError, msg_exit_code @ show_code code)
      else (Unknown, if trim combinedError = [] then msg_no_response else trim combinedError))"

text \<open>
  The failure branch of the web server's copy of the probe (lines 88 to 109): the chain
  ends after the fourth rule, and the detail of the fall-through is the first 100
  characters.
\<close>

definition classifyFailure_web :: "int option \<Rightarrow> string \<Rightarrow> string \<Rightarrow> errorType \<times> string" where
  "classifyFailure_web code output errorOutput =
     (let combinedError = errorOutput @ output in
      if str_includes combinedError ''authentication'' \<or> str_includes combinedError ''unauthorized''
         \<or> str_includes combinedError ''401'' then (AuthFailed, msg_auth)
      else if str_includes combinedError ''rate limit'' \<or> str_includes combinedError ''429''
        then (RateLimited, msg_rate)
      else if str_includes combinedError ''permission'' \<or> str_includes combinedError ''403''
        then (Forbidden, msg_forbidden)
      else if str_includes combinedError ''connection'' \<or> str_includes combinedError ''network''
        then (NetworkError, msg_network)
      else (Unknown, if substring0 combinedError 100 = [] then msg_unknown
                     else substring0 combinedError 100))"


section \<open>The probe as an event-driven state machine\<close>

record account =
  name :: string
  url :: string
  key :: string

text \<open>
  The result of \<open>parseArgs\<close>. A field set by \<open>parseInt\<close> is \<open>None\<close> when the text is
  not a number (\<open>NaN\<close>); a field that starts as \<open>null\<close> is \<open>None\<close> until it is set.
\<close>

record options =
  configFile :: "string option"
  timeout :: "int option"
  parallel :: "int option"
  verbose :: bool
  dingTalkWebhook :: "string option"
  dingTalkSecret :: "string option"
  dingTalkAtAll :: bool
  dingTalkAlways :: bool

text \<open>One call of \<open>spawn\<close>: the command line and the two environment overrides.\<close>

record spawn_call =
  command :: string
  arguments :: "string list"
  ANTHROPIC_BASE_URL :: string
  ANTHROPIC_API_KEY :: string

text \<open>
  The variables the closures of one \<open>testSingleModel\<close> call share, with what the call has
  done to the outside: the processes it spawned, whether it killed the child, what it wrote
  to the child's standard input, every call of \<open>resolve\<close> in order, whether the promise
  was rejected, and whether an exception no handler caught has ended the whole program.
  Two facts about the child's standard input are part of the state, since the outcome of
  a write depends on them: whether the child has closed its end of the pipe
  (\<open>pipeBroken\<close>), and whether the stream object has been destroyed, as it is once the
  child's \<open>close\<close> event is delivered (\<open>stdinDestroyed\<close>).
\<close>

record probe_state =
  result :: probe_result
  output' :: string
  errorOutput :: string
  hasResponded :: bool
  timeoutPending :: bool
  warmupPending :: bool
  spawned :: "spawn_call list"
  killed :: bool
  stdinWrites :: "string list"
  stdinEnded :: bool
  resolved :: "probe_result list"
  rejected :: bool
  crashed :: bool
  pipeBroken :: bool
  stdinDestroyed :: bool

text \<open>
  The state after \<open>spawn\<close> has returned a child and the listeners and the two timers are
  set. \<open>broken\<close> tells whether the child closes its end of the standard-input pipe.
\<close>

definition initialState :: "account \<Rightarrow> string \<Rightarrow> bool \<Rightarrow> probe_state" where
  "initialState account modelName broken =
     \<lparr> result = \<lparr> model = modelName, status = Testing, responseTime = 0, error = None,
                  response = None, speed = None, actualModel = None, errorType = None \<rparr>,
       output' = [], errorOutput = [], hasResponded = False,
       timeoutPending = True, warmupPending = True,
       spawned = [\<lparr> command = ''claude'', arguments = [''--model'', modelName],
                    ANTHROPIC_BASE_URL = url account, ANTHROPIC_API_KEY = key account \<rparr>],
       killed = False, stdinWrites = [], stdinEnded = False, resolved = [],
       rejected = False, crashed = False, pipeBroken = broken, stdinDestroyed = False \<rparr>"

text \<open>
  \<open>spawn\<close> throws, instead of returning a child, when a value of the environment it is
  given contains a NUL character. The call (line 519, and line 37 in the web server) is
  inside the executor of the promise and nothing catches the exception: the promise is
  rejected, no listener and no timer is set, and \<open>resolve\<close> is never called.
\<close>

definition spawnThrows :: "account \<Rightarrow> bool" where
  "spawnThrows account = (CHR 0x00 \<in> set (url account) \<or> CHR 0x00 \<in> set (key account))"

definition spawnFailed :: "account \<Rightarrow> string \<Rightarrow> probe_state" where
  "spawnFailed account modelName =
     (initialState account modelName False)
       \<lparr>spawned := [], timeoutPending := False, warmupPending := False, rejected := True\<rparr>"

text \<open>
  \<open>claude.stdin.write(...)\<close> followed by \<open>claude.stdin.end()\<close>, as both copies of the probe
  call them. On a destroyed stream the two calls do nothing and raise nothing. On a pipe
  whose other end the child has closed the write fails after the calls have returned:
  the stream emits an \<open>error\<close> event, no listener for it is registered on \<open>claude.stdin\<close>,
  and the exception ends the program. Otherwise the question reaches the child.
\<close>

definition stdinWriteEnd :: "probe_state \<Rightarrow> probe_state" where
  "stdinWriteEnd st =
     (if stdinDestroyed st then st
      else if pipeBroken st then st\<lparr>crashed := True\<rparr>
      else st\<lparr>stdinWrites := stdinWrites st @ [prompt], stdinEnded := True\<rparr>)"

text \<open>\<open>claude.stdout.on('data', ...)\<close> and \<open>claude.stderr.on('data', ...)\<close>.\<close>

definition on_stdout :: "string \<Rightarrow> probe_state \<Rightarrow> probe_state" where
  "on_stdout data st = st\<lparr>output' := output' st @ data\<rparr>"

definition on_stderr :: "string \<Rightarrow> probe_state \<Rightarrow> probe_state" where
  "on_stderr data st = st\<lparr>errorOutput := errorOutput st @ data\<rparr>"

text \<open>
  The callback of the timeout timer (lines 537 to 547), run \<open>elapsed\<close> milliseconds after
  \<open>startTime\<close>. A timer that has run is no longer pending.
\<close>

definition on_timeout :: "nat \<Rightarrow> probe_state \<Rightarrow> probe_state" where
  "on_timeout elapsed st =
     (if \<not> hasResponded st then
        (let r = (result st)\<lparr>status := Failed, error := Some msg_timeout,
                               errorType := Some Timeout, responseTime := elapsed\<rparr>
         in st\<lparr>timeoutPending := False, killed := True, result := r, hasResponded := True,
                resolved := resolved st @ [r]\<rparr>)
      else st\<lparr>timeoutPending := False\<rparr>)"

text \<open>The result object as the \<open>close\<close> handler (lines 549 to 606) leaves it.\<close>

definition closeResult :: "nat \<Rightarrow> int option \<Rightarrow> probe_state \<Rightarrow> probe_result" where
  "closeResult elapsed code st =
     (let r = (result st)\<lparr>responseTime := elapsed\<rparr> in
      if isSuccess code (output' st) then
        r\<lparr>status := Success,
          response := Some (substring0 (trim (output' st)) 200),
          actualModel :=
            (if str_includes (toLowerCase (output' st)) ''sonnet''
                \<or> str_includes (toLowerCase (output' st)) ''claude-3''
             then Some detected_from_response else actualModel r),
          speed := Some (speedOf elapsed)\<rparr>
      else
        (let (t, e) = classifyFailure code (output' st) (errorOutput st)
         in r\<lparr>status := Failed, errorType := Some t, error := Some e\<rparr>))"

definition on_close :: "nat \<Rightarrow> int option \<Rightarrow> probe_state \<Rightarrow> probe_state" where
  "on_close elapsed code st =
     (if hasResponded st then st
      else (let r = closeResult elapsed code st
            in st\<lparr>hasResponded := True, timeoutPending := False, result := r,
                   resolved := resolved st @ [r]\<rparr>))"

text \<open>\<open>claude.on('error', ...)\<close> (lines 608 to 618): the child could not be started.\<close>

definition on_error :: "nat \<Rightarrow> string \<Rightarrow> probe_state \<Rightarrow> probe_state" where
  "on_error elapsed message st =
     (if hasResponded st then st
      else (let r = (result st)\<lparr>status := Failed, responseTime := elapsed,
                                  errorType := Some LaunchFailed,
                                  error := Some (msg_launch @ message)\<rparr>
            in st\<lparr>hasResponded := True, timeoutPending := False, result := r,
                   resolved := resolved st @ [r]\<rparr>))"

text \<open>
  The callback of the one-second timer that sends the question (lines 620 to 630). Its
  \<open>try\<close>/\<open>catch\<close> catches what the two calls throw while they run, which is nothing; a
  failure of the write arrives later, as an event, and is not caught.
\<close>

definition on_warmup :: "probe_state \<Rightarrow> probe_state" where
  "on_warmup st =
     (if \<not> hasResponded st then stdinWriteEnd (st\<lparr>warmupPending := False\<rparr>)
      else st\<lparr>warmupPending := False\<rparr>)"


subsection \<open>The web server's copy of the probe\<close>

text \<open>
  The web server has its own \<open>testSingleModel\<close> (lines 17 to 120). Its timeout callback
  and its data listeners are the same; its \<open>close\<close> handler uses the shorter chain and
  detects no model; it has no \<open>error\<close> listener; and its one-second callback (lines 114
  to 118) writes without looking at \<open>hasResponded\<close>.
\<close>

definition closeResult_web :: "nat \<Rightarrow> int option \<Rightarrow> probe_state \<Rightarrow> probe_result" where
  "closeResult_web elapsed code st =
     (let r = (result st)\<lparr>responseTime := elapsed\<rparr> in
      if isSuccess code (output' st) then
        r\<lparr>status := Success,
          response := Some (substring0 (trim (output' st)) 200),
          speed := Some (speedOf elapsed)\<rparr>
      else
        (let (t, e) = classifyFailure_web code (output' st) (errorOutput st)
         in r\<lparr>status := Failed, errorType := Some t, error := Some e\<rparr>))"

definition on_close_web :: "nat \<Rightarrow> int option \<Rightarrow> probe_state \<Rightarrow> probe_state" where
  "on_close_web elapsed code st =
     (if hasResponded st then st
      else (let r = closeResult_web elapsed code st
            in st\<lparr>hasResponded := True, timeoutPending := False, result := r,
                   resolved := resolved st @ [r]\<rparr>))"

definition on_warmup_web :: "probe_state \<Rightarrow> probe_state" where
  "on_warmup_web st = stdinWriteEnd (st\<lparr>warmupPending := False\<rparr>)"

subsection \<open>The event loop around one probe\<close>

text \<open>
  What the child does, as the events the listeners receive, each with the time in
  milliseconds since \<open>startTime\<close> at which its handler runs. \<open>Close\<close> carries the exit
  code; \<open>SpawnError\<close> is the \<open>error\<close> event with its message.
\<close>

datatype child_event = Stdout string | Stderr string | Close "int option" | SpawnError string

text \<open>
  A child is its list of events in the order they are delivered. \<open>timersFirst\<close> settles
  the tie between a timer and a child event that fall on the same millisecond: when it
  holds the timer's callback runs before the event's handler, otherwise after it.
  \<open>closesStdin\<close> tells whether the child closes its end of the standard-input pipe
  before the question is written.
\<close>

record child =
  events :: "(nat \<times> child_event) list"
  timersFirst :: bool
  closesStdin :: bool

datatype variant = BatchChecker | WebServer

text \<open>\<open>setTimeout\<close> runs a delay that is not a number within 1 .. 2^31 - 1 as 1.\<close>

definition timerDelay :: "int option \<Rightarrow> nat" where
  "timerDelay d = (case d of None \<Rightarrow> 1
                   | Some n \<Rightarrow> if 1 \<le> n \<and> n \<le> 2147483647 then nat n else 1)"

text \<open>
  The listener of each event. When the \<open>close\<close> event is delivered the streams of the
  child are closed, so the stream object of its standard input is destroyed, whether or
  not the handler still does anything. An \<open>error\<close> event that has no listener is thrown,
  and nothing catches it.
\<close>

fun deliver :: "variant \<Rightarrow> nat \<Rightarrow> child_event \<Rightarrow> probe_state \<Rightarrow> probe_state" where
  "deliver v t (Stdout d) st = on_stdout d st"
| "deliver v t (Stderr d) st = on_stderr d st"
| "deliver BatchChecker t (Close code) st = on_close t code (st\<lparr>stdinDestroyed := True\<rparr>)"
| "deliver WebServer t (Close code) st = on_close_web t code (st\<lparr>stdinDestroyed := True\<rparr>)"
| "deliver BatchChecker t (SpawnError m) st = on_error t m st"
| "deliver WebServer t (SpawnError m) st = st\<lparr>crashed := True\<rparr>"

definition due :: "bool \<Rightarrow> nat \<Rightarrow> nat \<Rightarrow> bool" where
  "due tf deadline now = (if tf then deadline \<le> now else deadline < now)"

text \<open>A timer's callback runs when the timer is pending and due, and the program alive.\<close>

definition fire_timeout :: "bool \<Rightarrow> nat \<Rightarrow> nat \<Rightarrow> probe_state \<Rightarrow> probe_state" where
  "fire_timeout tf tmo now st =
     (if \<not> crashed st \<and> timeoutPending st \<and> due tf tmo now then on_timeout tmo st else st)"

definition fire_warmup :: "variant \<Rightarrow> bool \<Rightarrow> nat \<Rightarrow> probe_state \<Rightarrow> probe_state" where
  "fire_warmup v tf now st =
     (if \<not> crashed st \<and> warmupPending st \<and> due tf 1000 now
      then (case v of BatchChecker \<Rightarrow> on_warmup st | WebServer \<Rightarrow> on_warmup_web st)
      else st)"

text \<open>
  The pending timers whose deadline has passed run in the order of their deadlines; on
  equal deadlines the timeout timer, which was set first, runs first. The callback of
  the timeout timer reads the clock at its deadline.
\<close>

definition fire_timers :: "variant \<Rightarrow> bool \<Rightarrow> nat \<Rightarrow> nat \<Rightarrow> probe_state \<Rightarrow> probe_state" where
  "fire_timers v tf tmo now st =
     (if tmo \<le> 1000 then fire_warmup v tf now (fire_timeout tf tmo now st)
      else fire_timeout tf tmo now (fire_warmup v tf now st))"

text \<open>
  One event of the child: the timers that are due run, then the listener of the event.
  Nothing runs after a crash.
\<close>

definition step ::
  "variant \<Rightarrow> bool \<Rightarrow> nat \<Rightarrow> nat \<times> child_event \<Rightarrow> probe_state \<Rightarrow> probe_state" where
  "step v tf tmo x st =
     (if crashed st then st
      else (let st1 = fire_timers v tf tmo (fst x) st
            in if crashed st1 then st1 else deliver v (fst x) (snd x) st1))"

text \<open>The state when the child has delivered the events of a list.\<close>

fun feed ::
  "variant \<Rightarrow> bool \<Rightarrow> nat \<Rightarrow> (nat \<times> child_event) list \<Rightarrow> probe_state \<Rightarrow> probe_state" where
  "feed v tf tmo [] st = st"
| "feed v tf tmo (x # es) st = feed v tf tmo es (step v tf tmo x st)"

text \<open>
  A whole run: the events of the child, and when the child has nothing more to deliver,
  every timer still pending runs at its deadline.
\<close>

definition run_events ::
  "variant \<Rightarrow> bool \<Rightarrow> nat \<Rightarrow> (nat \<times> child_event) list \<Rightarrow> probe_state \<Rightarrow> probe_state" where
  "run_events v tf tmo es st = fire_timers v True tmo (max tmo 1000) (feed v tf tmo es st)"

definition testSingleModel :: "account \<Rightarrow> string \<Rightarrow> options \<Rightarrow> child \<Rightarrow> probe_state" where
  "testSingleModel account modelName opts c =
     (if spawnThrows account then spawnFailed account modelName
      else run_events BatchChecker (timersFirst c) (timerDelay (timeout opts)) (events c)
             (initialState account modelName (closesStdin c)))"

text \<open>The web server calls its probe with the default timeout of 60000.\<close>

definition testSingleModel_web :: "account \<Rightarrow> string \<Rightarrow> child \<Rightarrow> probe_state" where
  "testSingleModel_web account modelName c =
     (if spawnThrows account then spawnFailed account modelName
      else run_events WebServer (timersFirst c) (timerDelay (Some 60000)) (events c)
             (initialState account modelName (closesStdin c)))"

text \<open>
  What \<open>await\<close> on the promise of the probe yields: the argument of the first call of
  \<open>resolve\<close>, and no value (\<open>None\<close>) when \<open>resolve\<close> is never called: the promise was
  rejected, or the program has ended, or the promise stays pending.
\<close>

definition awaitResult :: "probe_state \<Rightarrow> probe_result option" where
  "awaitResult st = (case resolved st of [] \<Rightarrow> None | r # _ \<Rightarrow> Some r)"

section \<open>The account validator: \<open>testAccountDirect\<close>\<close>

datatype overallStatus = OverallTesting | BothSuccess | SonnetOnly | BothFailed

record account_result = account +
  fullKey :: string
  sonnet4 :: probe_result
  opus41 :: probe_result
  overallStatus :: overallStatus

definition SONNET4 :: string where
  "SONNET4 = ''claude-sonnet-4-20250514''"

definition OPUS41 :: string where
  "OPUS41 = ''claude-opus-4-1-20250805''"

definition skippedProbe :: probe_result where
  "skippedProbe = \<lparr> model = OPUS41, status = Skipped, responseTime = 0,
                    error = Some msg_skipped, response = None, speed = None,
                    actualModel = None, errorType = Some SkippedTest \<rparr>"

text \<open>
  The validation of one account (lines 635 to 684), given the behaviour of the child of
  the first probe and
  of the child a second probe would get. It returns the result object and the calls
  of \<open>spawn\<close> that returned a child, or \<open>None\<close> when an awaited probe yields no value
  (nothing catches a rejection here).
\<close>

definition testAccountDirect ::
  "account \<Rightarrow> options \<Rightarrow> child \<Rightarrow> child \<Rightarrow> (account_result \<times> spawn_call list) option" where
  "testAccountDirect account opts c1 c2 =
     (let p1 = testSingleModel account SONNET4 opts c1 in
      case awaitResult p1 of
        None \<Rightarrow> None
      | Some s4 \<Rightarrow>
          if status s4 = Success then
            (let p2 = testSingleModel account OPUS41 opts c2 in
             case awaitResult p2 of
               None \<Rightarrow> None
             | Some o41 \<Rightarrow>
                 Some (\<lparr> name = name account, url = url account,
                          key = substring0 (key account) 10 @ ''...'',
                          fullKey = key account, sonnet4 = s4, opus41 = o41,
                          overallStatus =
                            (if status o41 = Success then BothSuccess else SonnetOnly) \<rparr>,
                       spawned p1 @ spawned p2))
          else
            Some (\<lparr> name = name account, url = url account,
                     key = substring0 (key account) 10 @ ''...'',
                     fullKey = key account, sonnet4 = s4, opus41 = skippedProbe,
                     overallStatus = BothFailed \<rparr>,
                  spawned p1))"


section \<open>Batch execution: \<open>batchTest\<close>\<close>

text \<open>\<open>xs.slice(b, e)\<close>: a negative index counts from the end, \<open>NaN\<close> is 0.\<close>

definition sliceIndex :: "nat \<Rightarrow> int option \<Rightarrow> nat" where
  "sliceIndex n k =
     (case k of None \<Rightarrow> 0
      | Some i \<Rightarrow> if i < 0 then nat (max (int n + i) 0) else min (nat i) n)"

definition slice :: "'a list \<Rightarrow> int option \<Rightarrow> int option \<Rightarrow> 'a list" where
  "slice xs b e =
     (let from = sliceIndex (length xs) b; to = sliceIndex (length xs) e
      in take (to - from) (drop from xs))"

text \<open>Addition of numbers that may be \<open>NaN\<close>.\<close>

definition js_add :: "int option \<Rightarrow> int option \<Rightarrow> int option" where
  "js_add a b = (case (a, b) of (Some x, Some y) \<Rightarrow> Some (x + y) | _ \<Rightarrow> None)"

text \<open>
  The loop \<open>for (let i = 0; i < accounts.length; i += options.parallel)\<close> of
  \<open>batchTest\<close> (lines 773 to 794) that fills \<open>chunks\<close>. A comparison with \<open>NaN\<close> is false. The loop need not end, so the function is
  partial: \<open>None\<close> is a loop that runs for ever.
\<close>

partial_function (option) chunkLoop ::
  "'a list \<Rightarrow> int option \<Rightarrow> int option \<Rightarrow> 'a list list \<Rightarrow> 'a list list option" where
  "chunkLoop accounts par i chunks =
     (if i \<noteq> None \<and> the i < int (length accounts)
      then chunkLoop accounts par (js_add i par) (chunks @ [slice accounts i (js_add i par)])
      else Some chunks)"

text \<open>
  The world of a batch run: the two children the \<open>n\<close>-th call of \<open>testAccountDirect\<close> would
  get, and a rank that orders the completions of the calls that run together (the call of
  lower rank completes first).
\<close>

record world =
  children :: "nat \<Rightarrow> child \<times> child"
  finishOrder :: "nat \<Rightarrow> nat"

text \<open>What an observer sees of a batch run: the \<open>n\<close>-th validation starts, or completes.\<close>

datatype batch_event = Started nat | Finished nat

text \<open>
  \<open>Promise.all\<close> yields the values of its promises in the order of the promises, once all
  have resolved; it yields no value when one of them yields none.
\<close>

fun promiseAll :: "'a option list \<Rightarrow> 'a list option" where
  "promiseAll [] = Some []"
| "promiseAll (x # xs) =
     (case x of None \<Rightarrow> None
      | Some v \<Rightarrow> (case promiseAll xs of None \<Rightarrow> None | Some vs \<Rightarrow> Some (v # vs)))"

definition validate ::
  "options \<Rightarrow> world \<Rightarrow> nat \<Rightarrow> account \<Rightarrow> (account_result \<times> spawn_call list) option" where
  "validate opts w n account =
     testAccountDirect account opts (fst (children w n)) (snd (children w n))"

text \<open>
  The loop \<open>for (const chunk of chunks)\<close>. The state is \<open>results\<close>, the number of
  validations started so far, and the log of observed events. \<open>chunk.map\<close> starts every
  validation of the chunk in the order of the chunk; they complete in the order of their
  ranks; then \<open>results.push(...chunkResults)\<close> runs.
\<close>

fun runChunks ::
  "options \<Rightarrow> world \<Rightarrow> account list list \<Rightarrow>
   account_result list \<times> nat \<times> batch_event list \<Rightarrow>
   (account_result list \<times> nat \<times> batch_event list) option" where
  "runChunks opts w [] acc = Some acc"
| "runChunks opts w (chunk # rest) (results, n, log) =
     (let calls = [n ..< n + length chunk] in
      case promiseAll (map2 (validate opts w) calls chunk) of
        None \<Rightarrow> None
      | Some chunkResults \<Rightarrow>
          runChunks opts w rest
            (results @ map fst chunkResults, n + length chunk,
             log @ map Started calls @ map Finished (sort_key (finishOrder w) calls)))"

definition batchTest ::
  "account list \<Rightarrow> options \<Rightarrow> world \<Rightarrow> (account_result list \<times> batch_event list) option" where
  "batchTest accounts opts w =
     (case chunkLoop accounts (parallel opts) (Some 0) [] of
        None \<Rightarrow> None
      | Some chunks \<Rightarrow>
          (case runChunks opts w chunks ([], 0, []) of
             None \<Rightarrow> None
           | Some (results, n, log) \<Rightarrow> Some (results, log)))"

text \<open>The partition of a list into consecutive chunks of \<open>P\<close> elements, the last one shorter.\<close>

function chunksOf :: "nat \<Rightarrow> 'a list \<Rightarrow> 'a list list" where
  "chunksOf P xs = (if P = 0 \<or> xs = [] then [] else take P xs # chunksOf P (drop P xs))"
  by pat_completeness auto
termination
  by (relation "measure (\<lambda>(P, xs). length xs)") auto


section \<open>Command line and environment: \<open>parseArgs\<close>\<close>

definition digitValue :: "char \<Rightarrow> nat option" where
  "digitValue c =
     (let n = of_char c :: nat in
      if 48 \<le> n \<and> n \<le> 57 then Some (n - 48)
      else if 97 \<le> n \<and> n \<le> 122 then Some (n - 87)
      else if 65 \<le> n \<and> n \<le> 90 then Some (n - 55)
      else None)"

definition isRadixDigit :: "nat \<Rightarrow> char \<Rightarrow> bool" where
  "isRadixDigit R c = (case digitValue c of None \<Rightarrow> False | Some d \<Rightarrow> d < R)"

text \<open>
  \<open>parseInt(s)\<close>: leading white space, a sign, a \<open>0x\<close> prefix, then the longest run of
  digits; \<open>NaN\<close> (\<open>None\<close>) when there is no digit.
\<close>

definition parseInt :: "string \<Rightarrow> int option" where
  "parseInt s =
     (let s1 = dropWhile isWhiteSpace s;
          neg = (s1 \<noteq> [] \<and> hd s1 = CHR ''-'');
          s2 = (if s1 \<noteq> [] \<and> (hd s1 = CHR ''-'' \<or> hd s1 = CHR ''+'') then tl s1 else s1);
          hex = (startsWith s2 ''0x'' \<or> startsWith s2 ''0X'');
          R = (if hex then 16 else 10);
          ds = takeWhile (isRadixDigit R) (if hex then drop 2 s2 else s2);
          n = foldl (\<lambda>a c. R * a + (case digitValue c of None \<Rightarrow> 0 | Some d \<Rightarrow> d)) 0 ds
      in if ds = [] then None else Some (if neg then - int n else int n))"

text \<open>
  The webhook the source gives \<open>options.dingTalkWebhook\<close> to start with (line 243). The
  literal of the source carries an access token, which is left out here; all that
  matters below is that the string is not empty.
\<close>

definition DEFAULT_WEBHOOK :: string where
  "DEFAULT_WEBHOOK = ''https://oapi.dingtalk.com/robot/send?access_token=''"

definition defaultOptions :: options where
  "defaultOptions =
     \<lparr> configFile = None, timeout = Some 45000, parallel = Some 1, verbose = False,
       dingTalkWebhook = Some DEFAULT_WEBHOOK, dingTalkSecret = None,
       dingTalkAtAll = False, dingTalkAlways = False \<rparr>"

text \<open>\<open>args[i + 1]\<close> used as a condition: there is a next argument and it is not empty.\<close>

definition hasValue :: "string list \<Rightarrow> bool" where
  "hasValue rest = (rest \<noteq> [] \<and> hd rest \<noteq> [])"

text \<open>
  The body of the loop over \<open>args\<close> at the argument \<open>a\<close>, the arguments after it being
  \<open>rest\<close>. It returns whether the next argument is consumed as a value (\<open>i++\<close>), and the
  options.
\<close>

definition parseArg :: "string \<Rightarrow> string list \<Rightarrow> options \<Rightarrow> bool \<times> options" where
  "parseArg a rest opts =
     (if a = ''--timeout'' \<and> hasValue rest
        then (True, opts\<lparr>timeout := parseInt (hd rest)\<rparr>)
      else if a = ''--parallel'' \<and> hasValue rest
        then (True, opts\<lparr>parallel := parseInt (hd rest)\<rparr>)
      else if a = ''--verbose''
        then (False, opts\<lparr>verbose := True\<rparr>)
      else if a = ''--dingtalk-webhook'' \<and> hasValue rest
        then (True, opts\<lparr>dingTalkWebhook := Some (hd rest)\<rparr>)
      else if a = ''--dingtalk-secret'' \<and> hasValue rest
        then (True, opts\<lparr>dingTalkSecret := Some (hd rest)\<rparr>)
      else if a = ''--dingtalk-at-all''
        then (False, opts\<lparr>dingTalkAtAll := True\<rparr>)
      else if a = ''--dingtalk-always''
        then (False, opts\<lparr>dingTalkAlways := True\<rparr>)
      else if \<not> startsWith a ''--''
        then (False, opts\<lparr>configFile := Some a\<rparr>)
      else (False, opts))"

fun parseLoop :: "string list \<Rightarrow> options \<Rightarrow> options" where
  "parseLoop [] opts = opts"
| "parseLoop (a # rest) opts =
     parseLoop (if fst (parseArg a rest opts) then tl rest else rest) (snd (parseArg a rest opts))"

text \<open>A string or \<open>null\<close>/\<open>undefined\<close> used as a condition.\<close>

definition truthy :: "string option \<Rightarrow> bool" where
  "truthy x = (case x of None \<Rightarrow> False | Some s \<Rightarrow> s \<noteq> [])"

text \<open>
  \<open>parseArgs\<close> (lines 236 to 290), given \<open>process.argv.slice(2)\<close> and \<open>process.env\<close>.
  \<open>Inl 1\<close> is \<open>process.exit(1)\<close>.
\<close>

definition parseArgs :: "string list \<Rightarrow> (string \<rightharpoonup> string) \<Rightarrow> nat + options" where
  "parseArgs args env =
     (let opts = parseLoop args defaultOptions in
      if \<not> truthy (configFile opts) then Inl 1
      else
        (let opts1 = (if \<not> truthy (dingTalkWebhook opts) \<and> truthy (env ''DINGTALK_WEBHOOK'')
                      then opts\<lparr>dingTalkWebhook := env ''DINGTALK_WEBHOOK''\<rparr> else opts);
             opts2 = (if \<not> truthy (dingTalkSecret opts1) \<and> truthy (env ''DINGTALK_SECRET'')
                      then opts1\<lparr>dingTalkSecret := env ''DINGTALK_SECRET''\<rparr> else opts1)
         in Inr opts2))"

section \<open>The saved report: \<open>saveResults\<close>\<close>

definition label_pass :: string where
  "label_pass = ''pass''"
definition label_fail :: string where
  "label_fail = ''fail''"
definition label_skipped :: string where
  "label_skipped = ''skipped''"
definition csv_generated_at :: string where
  "csv_generated_at = ''# generated at: ''"
definition csv_columns :: string where
  "csv_columns = ''user name,url,key,sonnet4 pass,opus4 pass''"

definition newline :: string where
  "newline = [CHR 0x0A]"

text \<open>
  The rows of the report (lines 912 to 927). A field that contains a comma is put between
  double quotes.
\<close>

definition csvField :: "string \<Rightarrow> string" where
  "csvField s = (if str_includes s '','' then [CHR 0x22] @ s @ [CHR 0x22] else s)"

definition csvRow :: "account_result \<Rightarrow> string" where
  "csvRow r =
     (let sonnet4Status = (if status (sonnet4 r) = Success then label_pass else label_fail);
          opus4Status = (if status (opus41 r) = Success then label_pass
                         else if status (opus41 r) = Skipped then label_skipped
                         else label_fail)
      in csvField (name r) @ '','' @ csvField (url r) @ '','' @ csvField (fullKey r)
         @ '','' @ sonnet4Status @ '','' @ opus4Status)"

text \<open>\<open>xs.join(sep)\<close>.\<close>

fun join :: "string \<Rightarrow> string list \<Rightarrow> string" where
  "join sep [] = []"
| "join sep [x] = x"
| "join sep (x # y # ys) = x @ sep @ join sep (y # ys)"

text \<open>The text written to the report file, given the time stamp.\<close>

definition csvContent :: "string \<Rightarrow> account_result list \<Rightarrow> string" where
  "csvContent timestamp results =
     (csv_generated_at @ timestamp @ newline @ csv_columns @ newline)
     @ join newline (map csvRow results)"

section \<open>The notification: \<open>buildNotificationMessage\<close>\<close>

text \<open>Lines 370 to 438; the time stamp is a parameter.\<close>

record stats =
  total :: nat
  both_success :: nat
  sonnet_only :: nat
  both_failed :: nat

text \<open>The counts \<open>generateReport\<close> derives from the results.\<close>

definition computeStats :: "account_result list \<Rightarrow> stats" where
  "computeStats results =
     \<lparr> total = length results,
       both_success = length (filter (\<lambda>r. overallStatus r = BothSuccess) results),
       sonnet_only = length (filter (\<lambda>r. overallStatus r = SonnetOnly) results),
       both_failed = length (filter (\<lambda>r. overallStatus r = BothFailed) results) \<rparr>"

record message =
  msgtype :: string
  title :: string
  text' :: string

definition title_all_passed :: string where
  "title_all_passed = ''Claude account test: all passed''"
definition title_alert :: string where
  "title_alert = ''Claude account test alert''"
definition bullet :: string where
  "bullet = newline @ ''* ''"

definition allPassedText :: "string \<Rightarrow> stats \<Rightarrow> string" where
  "allPassedText timestamp st =
     ''## '' @ title_all_passed @ newline @ newline
     @ ''**time**: '' @ timestamp @ ''  '' @ newline
     @ ''**result**: '' @ newline
     @ ''- accounts: '' @ show_nat (total st) @ newline
     @ ''- both models passed: '' @ show_nat (both_success st) @ newline @ newline
     @ ''all accounts are fine''"

definition alertHeader :: "string \<Rightarrow> stats \<Rightarrow> string" where
  "alertHeader timestamp st =
     ''## '' @ title_alert @ '' report'' @ newline @ newline
     @ ''**time**: '' @ timestamp @ ''  '' @ newline
     @ ''**overview**: '' @ newline
     @ ''- accounts: '' @ show_nat (total st) @ newline
     @ ''- both models passed: '' @ show_nat (both_success st) @ newline
     @ ''- Sonnet4 only: '' @ show_nat (sonnet_only st) @ ''  '' @ newline
     @ ''- failed: '' @ show_nat (both_failed st) @ newline @ newline
     @ ''---''"

text \<open>\<open>e ? e.substring(0, 30) : <unknown error>\<close> on the \<open>error\<close> field of a probe.\<close>

definition errorMsg :: "probe_result \<Rightarrow> string" where
  "errorMsg p = (if truthy (error p) then substring0 (the (error p)) 30 else msg_unknown)"

definition failedLine :: "account_result \<Rightarrow> string" where
  "failedLine acc =
     bullet @ ''**'' @ name acc @ ''**: '' @ url acc @ '' -> '' @ errorMsg (sonnet4 acc)"

definition partialLine :: "account_result \<Rightarrow> string" where
  "partialLine acc =
     bullet @ ''**'' @ name acc @ ''**: Opus4.1 '' @ errorMsg (opus41 acc)"

text \<open>\<open>xs.slice(0, 10).forEach(acc => { messageText += line(acc) })\<close>.\<close>

definition appendLines :: "('a \<Rightarrow> string) \<Rightarrow> 'a list \<Rightarrow> string \<Rightarrow> string" where
  "appendLines line accs messageText = foldl (\<lambda>m acc. m @ line acc) messageText accs"

definition buildNotificationMessage ::
  "string \<Rightarrow> account_result list \<Rightarrow> stats \<Rightarrow> message" where
  "buildNotificationMessage timestamp results st =
     (let bothFailedAccounts = filter (\<lambda>r. overallStatus r = BothFailed) results;
          sonnetOnlyAccounts = filter (\<lambda>r. overallStatus r = SonnetOnly) results
      in
      if length bothFailedAccounts = 0 \<and> length sonnetOnlyAccounts = 0 then
        \<lparr> msgtype = ''markdown'', title = title_all_passed,
          text' = allPassedText timestamp st \<rparr>
      else
        (let m0 = alertHeader timestamp st;
             m1 = (if length bothFailedAccounts > 0 then
                     (let a = m0 @ newline @ ''**failed accounts** (''
                                @ show_nat (length bothFailedAccounts) @ ''):'';
                          b = appendLines failedLine (slice bothFailedAccounts (Some 0) (Some 10)) a
                      in if length bothFailedAccounts > 10
                         then b @ bullet @ show_nat (length bothFailedAccounts - 10)
                                @ '' more accounts failed...''
                         else b)
                   else m0);
             m2 = (if length sonnetOnlyAccounts > 0 then
                     (let a = m1 @ newline @ newline @ ''**partly failed accounts** (''
                                @ show_nat (length sonnetOnlyAccounts) @ ''):'';
                          b = appendLines partialLine (slice sonnetOnlyAccounts (Some 0) (Some 10)) a
                      in if length sonnetOnlyAccounts > 10
                         then b @ bullet @ show_nat (length sonnetOnlyAccounts - 10)
                                @ '' more accounts partly failed...''
                         else b)
                   else m1)
         in \<lparr> msgtype = ''markdown'', title = title_alert,
              text' = m2 @ newline @ newline @ ''please handle the failed accounts'' \<rparr>))"


section \<open>Notions used to state the properties\<close>

text \<open>What the data listeners have accumulated from a list of events.\<close>

definition stdoutOf :: "(nat \<times> child_event) list \<Rightarrow> string" where
  "stdoutOf es = concat (map (\<lambda>(t, e). case e of Stdout d \<Rightarrow> d | _ \<Rightarrow> []) es)"

definition stderrOf :: "(nat \<times> child_event) list \<Rightarrow> string" where
  "stderrOf es = concat (map (\<lambda>(t, e). case e of Stderr d \<Rightarrow> d | _ \<Rightarrow> []) es)"

text \<open>Events that are output only: the child has neither exited nor failed to start.\<close>

definition dataOnly :: "(nat \<times> child_event) list \<Rightarrow> bool" where
  "dataOnly es =
     list_all (\<lambda>(t, e). case e of Stdout d \<Rightarrow> True | Stderr d \<Rightarrow> True | _ \<Rightarrow> False) es"

text \<open>Events that all happen while a timer of the given deadline has not run yet.\<close>

definition allBefore :: "bool \<Rightarrow> nat \<Rightarrow> (nat \<times> child_event) list \<Rightarrow> bool" where
  "allBefore tf deadline es = list_all (\<lambda>(t, e). \<not> due tf deadline t) es"

text \<open>
  The success condition in the words of the specification: exit code 0, some standard
  output, and the word \<open>error\<close> in neither buffer, whatever its case.
\<close>

definition successAsSpecified :: "int option \<Rightarrow> string \<Rightarrow> string \<Rightarrow> bool" where
  "successAsSpecified code out err =
     (code = Some 0 \<and> length out > 0
      \<and> \<not> sublist ''error'' (toLowerCase out) \<and> \<not> sublist ''error'' (toLowerCase err))"

text \<open>
  The classification of a failure in the words of the specification: a table of rules
  in priority order, the first rule one of whose words occurs in the text deciding; when
  no rule applies, the exit code decides.
\<close>

definition ruleTable :: "(string list \<times> errorType) list" where
  "ruleTable =
     [([''authentication'', ''unauthorized'', ''401''], AuthFailed),
      ([''rate limit'', ''429''], RateLimited),
      ([''permission'', ''403''], Forbidden),
      ([''connection'', ''network''], NetworkError),
      ([''model'', ''not found''], ModelUnavailable)]"

fun firstMatch :: "(string list \<times> errorType) list \<Rightarrow> string \<Rightarrow> errorType option" where
  "firstMatch [] s = None"
| "firstMatch ((ws, k) # rules) s =
     (if list_ex (\<lambda>w. sublist w s) ws then Some k else firstMatch rules s)"

definition kindAsSpecified :: "int option \<Rightarrow> string \<Rightarrow> string \<Rightarrow> errorType" where
  "kindAsSpecified code out err =
     (case firstMatch ruleTable (err @ out) of
        Some k \<Rightarrow> k
      | None \<Rightarrow> if code \<noteq> Some 0 then ProcessError else Unknown)"

text \<open>The same with the first four rules only, and no rule for the exit code.\<close>

definition kindOfWebServer :: "string \<Rightarrow> string \<Rightarrow> errorType" where
  "kindOfWebServer out err =
     (case firstMatch (take 4 ruleTable) (err @ out) of Some k \<Rightarrow> k | None \<Rightarrow> Unknown)"

text \<open>The accounts of one overall status, as \<open>buildNotificationMessage\<close> selects them.\<close>

definition withStatus :: "overallStatus \<Rightarrow> account_result list \<Rightarrow> account_result list" where
  "withStatus s results = filter (\<lambda>r. overallStatus r = s) results"

text \<open>
  An invariant of both copies of the probe: \<open>resolve\<close> has been called once when
  \<open>hasResponded\<close> is set and not at all before, and every resolved result is a success
  or a failure.
\<close>

definition once :: "probe_state \<Rightarrow> bool" where
  "once st =
     (length (resolved st) = (if hasResponded st then 1 else 0)
      \<and> list_all (\<lambda>r. status r = Success \<or> status r = Failed) (resolved st))"

text \<open>
  An invariant of the batch checker's probe for a child that keeps its standard input
  open: nothing has crashed, and the timeout timer is pending as long as \<open>hasResponded\<close>
  is not set.
\<close>

definition armed :: "probe_state \<Rightarrow> bool" where
  "armed st = (\<not> crashed st \<and> \<not> pipeBroken st \<and> (hasResponded st \<or> timeoutPending st))"

text \<open>The \<open>close\<close> handler's result object in either copy of the probe.\<close>

definition closeResultOf :: "variant \<Rightarrow> nat \<Rightarrow> int option \<Rightarrow> probe_state \<Rightarrow> probe_result" where
  "closeResultOf v t code st =
     (case v of BatchChecker \<Rightarrow> closeResult t code st | WebServer \<Rightarrow> closeResult_web t code st)"

text \<open>
  The log of a batch run in closed form: chunk after chunk, every validation of the chunk
  starts, then every validation of the chunk completes, in the order of the ranks.
\<close>

fun chunkLogs :: "world \<Rightarrow> nat \<Rightarrow> 'a list list \<Rightarrow> batch_event list" where
  "chunkLogs w n [] = []"
| "chunkLogs w n (c # cs) =
     (map Started [n ..< n + length c]
      @ map Finished (sort_key (finishOrder w) [n ..< n + length c]))
     @ chunkLogs w (n + length c) cs"

text \<open>The result object of the \<open>n\<close>-th validation.\<close>

definition resultOf :: "options \<Rightarrow> world \<Rightarrow> nat \<Rightarrow> account \<Rightarrow> account_result" where
  "resultOf opts w n a = fst (the (validate opts w n a))"

text \<open>Every validation of a list of accounts, numbered from \<open>n\<close>, yields a result.\<close>

definition allValidated :: "options \<Rightarrow> world \<Rightarrow> nat \<Rightarrow> account list \<Rightarrow> bool" where
  "allValidated opts w n as =
     list_all (\<lambda>(k, a). validate opts w k a \<noteq> None) (zip [n ..< n + length as] as)"

text \<open>An account and child behaviours for the concrete runs below.\<close>

definition exampleAccount :: account where
  "exampleAccount =
     \<lparr> name = ''team-1'', url = ''https://api.example.com'', key = ''cr_0123456789abcdef'' \<rparr>"

definition exampleChild :: child where
  "exampleChild =
     \<lparr> events = [(1200, Stdout ''I am Claude''), (2000, Close (Some 0))],
       timersFirst = False, closesStdin = False \<rparr>"

text \<open>What the validation of the example account yields with two such children.\<close>

definition exampleReply :: "string \<Rightarrow> probe_result" where
  "exampleReply m =
     \<lparr> model = m, status = Success, responseTime = 2000, error = None,
       response = Some ''I am Claude'', speed = Some VeryFast, actualModel = None,
       errorType = None \<rparr>"

definition exampleResult :: account_result where
  "exampleResult =
     \<lparr> name = ''team-1'', url = ''https://api.example.com'', key = ''cr_0123456...'',
       fullKey = ''cr_0123456789abcdef'', sonnet4 = exampleReply SONNET4,
       opus41 = exampleReply OPUS41, overallStatus = BothSuccess \<rparr>"

definition exampleSpawn :: "string \<Rightarrow> spawn_call" where
  "exampleSpawn m =
     \<lparr> command = ''claude'', arguments = [''--model'', m],
       ANTHROPIC_BASE_URL = ''https://api.example.com'',
       ANTHROPIC_API_KEY = ''cr_0123456789abcdef'' \<rparr>"

text \<open>An account whose credential contains a NUL character, and a child that closes its
  standard input and never exits.\<close>

definition nulAccount :: account where
  "nulAccount = exampleAccount\<lparr>key := ''cr_'' @ [CHR 0x00] @ ''abc''\<rparr>"

definition deafChild :: child where
  "deafChild = \<lparr> events = [], timersFirst = False, closesStdin = True \<rparr>"

text \<open>A world in which the validations of a chunk complete in reverse order.\<close>

definition exampleWorld :: world where
  "exampleWorld = \<lparr> children = (\<lambda>n. (exampleChild, exampleChild)),
                     finishOrder = (\<lambda>n. 10 - n) \<rparr>"

definition exampleAccounts :: "account list" where
  "exampleAccounts =
     [exampleAccount, exampleAccount\<lparr>name := ''team-2''\<rparr>, exampleAccount\<lparr>name := ''team-3''\<rparr>]"

definition exampleEnv :: "string \<rightharpoonup> string" where
  "exampleEnv = [''DINGTALK_WEBHOOK'' \<mapsto> ''https://example.com/hook'']"

text \<open>The result of an account whose primary probe timed out.\<close>

definition failedResult :: "string \<Rightarrow> account_result" where
  "failedResult n =
     \<lparr> name = n, url = ''https://api.example.com'', key = ''cr_0123456...'',
       fullKey = ''cr_0123456789abcdef'',
       sonnet4 = \<lparr> model = SONNET4, status = Failed, responseTime = 45000,
                   error = Some msg_timeout, response = None, speed = None,
                   actualModel = None, errorType = Some Timeout \<rparr>,
       opus41 = skippedProbe, overallStatus = BothFailed \<rparr>"

declare chunksOf.simps [simp del]

section \<open>Strings: facts\<close>

lemma startsWith_prefix: "startsWith s p = prefix p s"
  by (induction s p rule: startsWith.induct) auto

lemma str_includes_sublist: "str_includes s p = sublist p s"
proof (induction s)
  case Nil
  then show ?case by auto
next
  case (Cons c cs)
  then show ?case by (simp add: startsWith_prefix sublist_Cons_right)
qed

section \<open>Every probe resolves at most once\<close>

lemma status_closeResult:
  "status (closeResult t code st) = (if isSuccess code (output' st) then Success else Failed)"
  by (simp add: closeResult_def Let_def split: prod.split)

lemma status_closeResult_web:
  "status (closeResult_web t code st) = (if isSuccess code (output' st) then Success else Failed)"
  by (simp add: closeResult_web_def Let_def split: prod.split)

lemma stdinWriteEnd_fields:
  "result (stdinWriteEnd st) = result st"
  "output' (stdinWriteEnd st) = output' st"
  "errorOutput (stdinWriteEnd st) = errorOutput st"
  "resolved (stdinWriteEnd st) = resolved st"
  "hasResponded (stdinWriteEnd st) = hasResponded st"
  "timeoutPending (stdinWriteEnd st) = timeoutPending st"
  "spawned (stdinWriteEnd st) = spawned st"
  "pipeBroken (stdinWriteEnd st) = pipeBroken st"
  "stdinDestroyed (stdinWriteEnd st) = stdinDestroyed st"
  by (simp_all add: stdinWriteEnd_def)

lemma fire_warmup_fields:
  "result (fire_warmup v tf now st) = result st"
  "output' (fire_warmup v tf now st) = output' st"
  "errorOutput (fire_warmup v tf now st) = errorOutput st"
  "resolved (fire_warmup v tf now st) = resolved st"
  "hasResponded (fire_warmup v tf now st) = hasResponded st"
  "timeoutPending (fire_warmup v tf now st) = timeoutPending st"
  "spawned (fire_warmup v tf now st) = spawned st"
  "pipeBroken (fire_warmup v tf now st) = pipeBroken st"
  "stdinDestroyed (fire_warmup v tf now st) = stdinDestroyed st"
  by (cases v; simp add: fire_warmup_def on_warmup_def on_warmup_web_def stdinWriteEnd_fields)+

lemma fire_timeout_fields:
  "output' (fire_timeout tf tmo now st) = output' st"
  "errorOutput (fire_timeout tf tmo now st) = errorOutput st"
  "crashed (fire_timeout tf tmo now st) = crashed st"
  "spawned (fire_timeout tf tmo now st) = spawned st"
  "pipeBroken (fire_timeout tf tmo now st) = pipeBroken st"
  "stdinDestroyed (fire_timeout tf tmo now st) = stdinDestroyed st"
  "stdinWrites (fire_timeout tf tmo now st) = stdinWrites st"
  "stdinEnded (fire_timeout tf tmo now st) = stdinEnded st"
  "warmupPending (fire_timeout tf tmo now st) = warmupPending st"
  by (simp_all add: fire_timeout_def on_timeout_def Let_def)

lemma once_fire_timeout: "once st \<Longrightarrow> once (fire_timeout tf tmo now st)"
  by (auto simp: once_def fire_timeout_def on_timeout_def Let_def)

lemma once_fire_warmup: "once st \<Longrightarrow> once (fire_warmup v tf now st)"
  by (simp add: once_def fire_warmup_fields)

lemma once_fire_timers: "once st \<Longrightarrow> once (fire_timers v tf tmo now st)"
  by (simp add: fire_timers_def once_fire_timeout once_fire_warmup)

lemma once_deliver: "once st \<Longrightarrow> once (deliver v t e st)"
  by (cases e; cases v)
     (auto simp: once_def on_stdout_def on_stderr_def on_close_def on_close_web_def
        on_error_def Let_def status_closeResult status_closeResult_web)

lemma once_step: "once st \<Longrightarrow> once (step v tf tmo x st)"
  by (simp add: step_def Let_def once_deliver once_fire_timers)

lemma once_feed: "once st \<Longrightarrow> once (feed v tf tmo es st)"
  by (induction es arbitrary: st) (simp_all add: once_step)

lemma once_run_events: "once st \<Longrightarrow> once (run_events v tf tmo es st)"
  by (simp add: run_events_def once_fire_timers once_feed)

lemma once_initial: "once (initialState a m b)"
  by (simp add: once_def initialState_def)

lemma once_spawnFailed: "once (spawnFailed a m)"
  by (simp add: once_def spawnFailed_def initialState_def)

lemma once_testSingleModel: "once (testSingleModel account modelName opts c)"
  by (simp add: testSingleModel_def once_run_events once_initial once_spawnFailed)

lemma probe_resolves_at_most_once:
  "length (resolved (testSingleModel account modelName opts c)) \<le> 1"
  using once_testSingleModel[of account modelName opts c] by (simp add: once_def)

lemma probe_awaited:
  assumes "awaitResult (testSingleModel account modelName opts c) = Some r"
  shows "status r = Success \<or> status r = Failed"
proof -
  let ?st = "testSingleModel account modelName opts c"
  have o: "once ?st" by (rule once_testSingleModel)
  from assms obtain rs where "resolved ?st = r # rs"
    by (auto simp: awaitResult_def split: list.splits)
  with o show ?thesis by (simp add: once_def)
qed

lemma armed_fire_timeout: "armed st \<Longrightarrow> armed (fire_timeout tf tmo now st)"
  by (auto simp: armed_def fire_timeout_def on_timeout_def Let_def)

lemma armed_fire_warmup: "armed st \<Longrightarrow> armed (fire_warmup BatchChecker tf now st)"
  by (auto simp: armed_def fire_warmup_def on_warmup_def stdinWriteEnd_def)

lemma armed_fire_timers: "armed st \<Longrightarrow> armed (fire_timers BatchChecker tf tmo now st)"
  by (simp add: fire_timers_def armed_fire_timeout armed_fire_warmup)

lemma armed_deliver: "armed st \<Longrightarrow> armed (deliver BatchChecker t e st)"
  by (cases e)
     (auto simp: armed_def on_stdout_def on_stderr_def on_close_def on_error_def Let_def)

lemma armed_step: "armed st \<Longrightarrow> armed (step BatchChecker tf tmo x st)"
  by (simp add: step_def Let_def armed_deliver armed_fire_timers)

lemma armed_feed: "armed st \<Longrightarrow> armed (feed BatchChecker tf tmo es st)"
  by (induction es arbitrary: st) (simp_all add: armed_step)

lemma hasResponded_after_timeout:
  "armed st \<Longrightarrow> tmo \<le> now \<Longrightarrow> hasResponded (fire_timeout True tmo now st)"
  by (auto simp: fire_timeout_def due_def on_timeout_def armed_def Let_def)

lemma hasResponded_at_end:
  assumes "armed st"
  shows "hasResponded (fire_timers BatchChecker True tmo (max tmo 1000) st)"
proof -
  have "hasResponded (fire_timeout True tmo (max tmo 1000) st)"
    by (rule hasResponded_after_timeout[OF assms]) simp
  moreover have "hasResponded (fire_timeout True tmo (max tmo 1000)
                   (fire_warmup BatchChecker True (max tmo 1000) st))"
    by (rule hasResponded_after_timeout[OF armed_fire_warmup[OF assms]]) simp
  ultimately show ?thesis
    unfolding fire_timers_def by (simp only: fire_warmup_fields if_split) simp
qed

lemma probe_resolves_once_when_healthy:
  assumes "\<not> spawnThrows account" "\<not> closesStdin c"
  shows "\<exists>r. resolved (testSingleModel account modelName opts c) = [r]
            \<and> awaitResult (testSingleModel account modelName opts c) = Some r"
proof -
  let ?st = "testSingleModel account modelName opts c"
  have a: "armed (initialState account modelName (closesStdin c))"
    using assms(2) by (simp add: armed_def initialState_def)
  have "hasResponded ?st"
    using assms(1) hasResponded_at_end[OF armed_feed[OF a]]
    by (simp add: testSingleModel_def run_events_def)
  with once_testSingleModel[of account modelName opts c]
  have "length (resolved ?st) = 1" by (simp add: once_def)
  then obtain r where "resolved ?st = [r]" by (cases "resolved ?st") auto
  then show ?thesis by (simp add: awaitResult_def)
qed

section \<open>The outcome of a child that exits before the timeout\<close>

lemma feed_append: "feed v tf tmo (xs @ ys) st = feed v tf tmo ys (feed v tf tmo xs st)"
  by (induction xs arbitrary: st) simp_all

lemma step_crashed: "crashed st \<Longrightarrow> step v tf tmo x st = st"
  by (simp add: step_def)

lemma feed_crashed: "crashed st \<Longrightarrow> feed v tf tmo es st = st"
  by (induction es arbitrary: st) (simp_all add: step_crashed)

lemma fire_timers_crashed: "crashed st \<Longrightarrow> fire_timers v tf tmo now st = st"
  by (simp add: fire_timers_def fire_timeout_def fire_warmup_def)

lemma run_events_crashed: "crashed st \<Longrightarrow> run_events v tf tmo es st = st"
  by (simp add: run_events_def feed_crashed fire_timers_crashed)

lemma fire_timers_not_due:
  "\<not> due tf tmo now \<Longrightarrow> fire_timers v tf tmo now st = fire_warmup v tf now st"
  by (simp add: fire_timers_def fire_timeout_def)

lemma crashed_fire_warmup:
  "crashed (fire_warmup v tf now st) \<Longrightarrow> crashed st \<or> pipeBroken st"
  by (cases v)
     (auto simp: fire_warmup_def on_warmup_def on_warmup_web_def stdinWriteEnd_def
        split: if_splits)

lemma fire_timeout_responded:
  "hasResponded st \<Longrightarrow> hasResponded (fire_timeout tf tmo now st)
     \<and> resolved (fire_timeout tf tmo now st) = resolved st
     \<and> result (fire_timeout tf tmo now st) = result st"
  by (simp add: fire_timeout_def on_timeout_def)

lemma fire_timers_responded:
  "hasResponded st \<Longrightarrow> hasResponded (fire_timers v tf tmo now st)
     \<and> resolved (fire_timers v tf tmo now st) = resolved st
     \<and> result (fire_timers v tf tmo now st) = result st"
  by (simp add: fire_timers_def fire_warmup_fields fire_timeout_responded)

lemma deliver_responded:
  "hasResponded st \<Longrightarrow> hasResponded (deliver v t e st)
     \<and> resolved (deliver v t e st) = resolved st \<and> result (deliver v t e st) = result st"
  by (cases e; cases v)
     (simp_all add: on_stdout_def on_stderr_def on_close_def on_close_web_def on_error_def)

lemma step_responded:
  "hasResponded st \<Longrightarrow> hasResponded (step v tf tmo x st)
     \<and> resolved (step v tf tmo x st) = resolved st \<and> result (step v tf tmo x st) = result st"
  by (simp add: step_def Let_def deliver_responded fire_timers_responded)

lemma feed_responded:
  "hasResponded st \<Longrightarrow> hasResponded (feed v tf tmo es st)
     \<and> resolved (feed v tf tmo es st) = resolved st \<and> result (feed v tf tmo es st) = result st"
proof (induction es arbitrary: st)
  case Nil
  then show ?case by simp
next
  case (Cons x es)
  from step_responded[OF Cons.prems, of v tf tmo x] Cons.IH[of "step v tf tmo x st"]
  show ?case by simp
qed

lemma run_events_responded:
  "hasResponded st \<Longrightarrow> resolved (run_events v tf tmo es st) = resolved st
     \<and> result (run_events v tf tmo es st) = result st"
  using feed_responded[of st v tf tmo es]
    fire_timers_responded[of "feed v tf tmo es st" v True tmo "max tmo 1000"]
  by (simp add: run_events_def)

lemma closeResultOf_cong:
  "result st = result st' \<Longrightarrow> output' st = output' st' \<Longrightarrow> errorOutput st = errorOutput st'
   \<Longrightarrow> closeResultOf v t code st = closeResultOf v t code st'"
  by (cases v)
     (simp_all add: closeResultOf_def closeResult_def closeResult_web_def Let_def cong: if_cong)

lemma deliver_close:
  assumes "\<not> hasResponded st"
  shows "resolved (deliver v t (Close code) st) = resolved st @ [closeResultOf v t code st]"
    and "hasResponded (deliver v t (Close code) st)"
    and "crashed (deliver v t (Close code) st) = crashed st"
proof -
  have c: "closeResultOf v t code (st\<lparr>stdinDestroyed := True\<rparr>) = closeResultOf v t code st"
    by (rule closeResultOf_cong) simp_all
  show "resolved (deliver v t (Close code) st) = resolved st @ [closeResultOf v t code st]"
    using assms c by (cases v) (simp_all add: on_close_def on_close_web_def closeResultOf_def Let_def)
  show "hasResponded (deliver v t (Close code) st)"
    by (cases v) (simp_all add: on_close_def on_close_web_def Let_def)
  show "crashed (deliver v t (Close code) st) = crashed st"
    by (cases v) (simp_all add: on_close_def on_close_web_def Let_def)
qed

lemma close_first:
  assumes "\<not> due tf tmo t" "\<not> hasResponded st" "resolved st = []"
  shows "(resolved (run_events v tf tmo ((t, Close code) # post) st) = []
            \<and> (crashed st \<or> pipeBroken st))
         \<or> resolved (run_events v tf tmo ((t, Close code) # post) st) = [closeResultOf v t code st]"
proof (cases "crashed st")
  case True
  with assms(3) show ?thesis by (simp add: run_events_crashed)
next
  case False
  let ?w = "fire_warmup v tf t st"
  show ?thesis
  proof (cases "crashed ?w")
    case True
    then have "step v tf tmo (t, Close code) st = ?w"
      using False assms(1) by (simp add: step_def fire_timers_not_due)
    then have "run_events v tf tmo ((t, Close code) # post) st = ?w"
      using True by (simp add: run_events_def feed_crashed fire_timers_crashed)
    with assms(3) crashed_fire_warmup[OF True] show ?thesis
      by (simp add: fire_warmup_fields)
  next
    case nc: False
    let ?st' = "deliver v t (Close code) ?w"
    have s: "step v tf tmo (t, Close code) st = ?st'"
      using False nc assms(1) by (simp add: step_def fire_timers_not_due del: deliver.simps)
    have nr: "\<not> hasResponded ?w" using assms(2) by (simp add: fire_warmup_fields)
    have cr: "closeResultOf v t code ?w = closeResultOf v t code st"
      by (rule closeResultOf_cong) (simp_all add: fire_warmup_fields)
    have "resolved ?st' = [closeResultOf v t code st]"
      using deliver_close(1)[OF nr, of v t code] cr assms(3) by (simp add: fire_warmup_fields)
    moreover have "resolved (run_events v tf tmo post ?st') = resolved ?st'"
      using run_events_responded[OF deliver_close(2)[OF nr]] by blast
    moreover have "run_events v tf tmo ((t, Close code) # post) st = run_events v tf tmo post ?st'"
      using s by (simp add: run_events_def del: deliver.simps)
    ultimately show ?thesis by simp
  qed
qed

lemma data_then_close:
  assumes "dataOnly pre" "allBefore tf tmo pre" "\<not> due tf tmo t"
    "\<not> hasResponded st" "resolved st = []"
  shows "(resolved (run_events v tf tmo (pre @ (t, Close code) # post) st) = []
            \<and> (crashed st \<or> pipeBroken st))
         \<or> (\<exists>st'. result st' = result st \<and> output' st' = output' st @ stdoutOf pre
               \<and> errorOutput st' = errorOutput st @ stderrOf pre
               \<and> resolved (run_events v tf tmo (pre @ (t, Close code) # post) st)
                   = [closeResultOf v t code st'])"
  using assms
proof (induction pre arbitrary: st)
  case Nil
  from close_first[OF Nil.prems(3) Nil.prems(4) Nil.prems(5), of v code post]
  show ?case by (auto simp: stdoutOf_def stderrOf_def)
next
  case (Cons x pre)
  obtain t' e where x: "x = (t', e)" by (cases x)
  from Cons.prems x have nd: "\<not> due tf tmo t'" and dp: "dataOnly pre" and ab: "allBefore tf tmo pre"
    and de: "(\<exists>d. e = Stdout d) \<or> (\<exists>d. e = Stderr d)"
    by (auto simp: dataOnly_def allBefore_def split: child_event.splits)
  let ?w = "fire_warmup v tf t' st"
  let ?run = "\<lambda>s. run_events v tf tmo (pre @ (t, Close code) # post) s"
  have unfold: "run_events v tf tmo ((x # pre) @ (t, Close code) # post) st = ?run (step v tf tmo x st)"
    by (simp add: run_events_def)
  show ?case
  proof (cases "crashed st \<or> crashed ?w")
    case True
    then have c: "crashed (step v tf tmo x st)" and r: "resolved (step v tf tmo x st) = []"
      and b: "crashed st \<or> pipeBroken st"
      using nd Cons.prems(5) crashed_fire_warmup[of v tf t' st]
      by (auto simp: step_def x Let_def fire_timers_not_due fire_warmup_fields)
    from c r have "resolved (?run (step v tf tmo x st)) = []"
      by (simp add: run_events_crashed)
    with b unfold show ?thesis by simp
  next
    case False
    let ?st1 = "deliver v t' e ?w"
    from False nd have s: "step v tf tmo x st = ?st1"
      by (simp add: step_def x Let_def fire_timers_not_due)
    from de Cons.prems False have st1: "\<not> hasResponded ?st1" "resolved ?st1 = []"
      "result ?st1 = result st" "\<not> crashed ?st1" "pipeBroken ?st1 = pipeBroken st"
      by (auto simp: on_stdout_def on_stderr_def fire_warmup_fields)
    from de have outs: "output' ?st1 @ stdoutOf pre = output' st @ stdoutOf (x # pre)"
      "errorOutput ?st1 @ stderrOf pre = errorOutput st @ stderrOf (x # pre)"
      by (auto simp: on_stdout_def on_stderr_def fire_warmup_fields stdoutOf_def stderrOf_def x)
    from Cons.IH[OF dp ab Cons.prems(3) st1(1) st1(2)]
    have "(resolved (?run ?st1) = [] \<and> (crashed ?st1 \<or> pipeBroken ?st1))
         \<or> (\<exists>st'. result st' = result ?st1 \<and> output' st' = output' ?st1 @ stdoutOf pre
               \<and> errorOutput st' = errorOutput ?st1 @ stderrOf pre
               \<and> resolved (?run ?st1) = [closeResultOf v t code st'])" .
    then show ?thesis
    proof
      assume "resolved (?run ?st1) = [] \<and> (crashed ?st1 \<or> pipeBroken ?st1)"
      with st1 unfold s show ?thesis by simp
    next
      assume "\<exists>st'. result st' = result ?st1 \<and> output' st' = output' ?st1 @ stdoutOf pre
               \<and> errorOutput st' = errorOutput ?st1 @ stderrOf pre
               \<and> resolved (?run ?st1) = [closeResultOf v t code st']"
      then obtain st' where "result st' = result ?st1" "output' st' = output' ?st1 @ stdoutOf pre"
        "errorOutput st' = errorOutput ?st1 @ stderrOf pre"
        "resolved (?run ?st1) = [closeResultOf v t code st']" by blast
      with st1(3) outs unfold s have "result st' = result st \<and> output' st' = output' st @ stdoutOf (x # pre)
               \<and> errorOutput st' = errorOutput st @ stderrOf (x # pre)
               \<and> resolved (run_events v tf tmo ((x # pre) @ (t, Close code) # post) st)
                   = [closeResultOf v t code st']" by simp
      then show ?thesis by blast
    qed
  qed
qed

lemma close_before_timeout:
  assumes "dataOnly pre" "allBefore tf tmo pre" "\<not> due tf tmo t"
  shows "(awaitResult (run_events v tf tmo (pre @ (t, Close code) # post)
                        (initialState account modelName b)) = None \<and> b)
         \<or> (\<exists>st'. output' st' = stdoutOf pre \<and> errorOutput st' = stderrOf pre
               \<and> awaitResult (run_events v tf tmo (pre @ (t, Close code) # post)
                                (initialState account modelName b))
                   = Some (closeResultOf v t code st'))"
proof -
  let ?st = "initialState account modelName b"
  have init: "\<not> hasResponded ?st" "resolved ?st = []" "\<not> crashed ?st"
    "output' ?st = []" "errorOutput ?st = []" "pipeBroken ?st = b"
    by (simp_all add: initialState_def)
  from data_then_close[OF assms init(1) init(2), of v code post] init(3-6)
  show ?thesis by (auto simp: awaitResult_def)
qed

lemma status_closeResultOf:
  "status (closeResultOf v t code st) = (if isSuccess code (output' st) then Success else Failed)"
  by (cases v) (simp_all add: closeResultOf_def status_closeResult status_closeResult_web)

text \<open>
  C1 (as amended). In either copy of the probe, when the child delivers only output and
  then exits, all before the timeout timer is due, and the probe yields a result, the
  status of the result is \<open>Success\<close> if and only if the exit code is 0, the accumulated
  standard output is not empty, and the standard output contains neither \<open>Error\<close> nor
  \<open>error\<close>, in exactly these two spellings. Standard error plays no part. (By
  \<open>close_before_timeout\<close> the probe yields a result here unless the child has closed its
  standard input.)
\<close>

theorem success_iff_clean_stdout:
  assumes "dataOnly pre" "allBefore tf tmo pre" "\<not> due tf tmo t"
    and "awaitResult (run_events v tf tmo (pre @ (t, Close code) # post)
                        (initialState account modelName b)) = Some r"
  shows "status r = Success \<longleftrightarrow>
           code = Some 0 \<and> length (stdoutOf pre) > 0
           \<and> \<not> sublist ''Error'' (stdoutOf pre) \<and> \<not> sublist ''error'' (stdoutOf pre)"
proof -
  from close_before_timeout[OF assms(1-3), of v code post account modelName b] assms(4)
  obtain st' where out: "output' st' = stdoutOf pre" and r: "r = closeResultOf v t code st'"
    by auto
  show ?thesis
    unfolding r by (simp add: status_closeResultOf out isSuccess_def str_includes_sublist)
qed

lemmas probe_defs =
  testSingleModel_def testSingleModel_web_def spawnThrows_def spawnFailed_def
  defaultOptions_def timerDelay_def run_events_def step_def stdinWriteEnd_def
  initialState_def fire_timers_def fire_timeout_def fire_warmup_def due_def on_stdout_def
  on_stderr_def on_close_def on_close_web_def closeResult_def closeResult_web_def
  on_warmup_def on_warmup_web_def on_timeout_def on_error_def awaitResult_def Let_def

lemma example_stdout_is_clean: "isSuccess (Some 0) ''I am Claude''"
  by (simp add: isSuccess_def)

lemma error_on_stderr_not_success_as_specified:
  "\<not> successAsSpecified (Some 0) ''I am Claude'' ''error: telemetry off''"
  by (simp add: successAsSpecified_def toLowerCase_def toLowerChar_def
      str_includes_sublist[symmetric])

lemma example_reply_strings:
  "toLowerCase ''I am Claude'' = ''i am claude''" "trim ''I am Claude'' = ''I am Claude''"
  by code_simp+

lemma example_run:
  "awaitResult (run_events BatchChecker False 45000
           ([(1200, Stdout ''I am Claude'')] @ (2000, Close (Some 0)) # [])
           (initialState exampleAccount m False)) = Some (exampleReply m)"
  by (simp add: probe_defs exampleReply_def isSuccess_def speedOf_def substring0_def
      example_reply_strings)

theorem success_iff_clean_stdout_witness:
  "dataOnly [(1200, Stdout ''I am Claude'')]
   \<and> allBefore False 45000 [(1200, Stdout ''I am Claude'')]
   \<and> \<not> due False 45000 2000
   \<and> awaitResult (run_events BatchChecker False 45000
           ([(1200, Stdout ''I am Claude'')] @ (2000, Close (Some 0)) # [])
           (initialState exampleAccount SONNET4 False)) = Some (exampleReply SONNET4)
   \<and> (status (exampleReply SONNET4) = Success) =
       (Some 0 = Some (0::int) \<and> length (stdoutOf [(1200::nat, Stdout ''I am Claude'')]) > 0
          \<and> \<not> sublist ''Error'' (stdoutOf [(1200::nat, Stdout ''I am Claude'')])
          \<and> \<not> sublist ''error'' (stdoutOf [(1200::nat, Stdout ''I am Claude'')]))
   \<and> status (exampleReply SONNET4) = Success"
proof -
  have h: "dataOnly [(1200, Stdout ''I am Claude'')]"
    "allBefore False 45000 [(1200, Stdout ''I am Claude'')]" "\<not> due False 45000 2000"
    by (simp_all add: dataOnly_def allBefore_def due_def)
  note run = example_run[of SONNET4]
  from success_iff_clean_stdout[OF h run] h run show ?thesis
    by (simp add: exampleReply_def)
qed

text \<open>
  C1 as stated fails. A child that answers on standard output, prints a line with the
  word \<open>error\<close> on standard error and exits with code 0 is a success for the code, and
  not one for the stated condition.
\<close>

theorem success_ignores_stderr_counterexample:
  "\<not> (map_option status
         (awaitResult (testSingleModel exampleAccount SONNET4 defaultOptions
            \<lparr> events = [(1200, Stdout ''I am Claude''),
                         (1300, Stderr ''error: telemetry off''),
                         (2000, Close (Some 0))],
              timersFirst = False, closesStdin = False \<rparr>)) = Some Success
       \<longleftrightarrow> successAsSpecified (Some 0) ''I am Claude'' ''error: telemetry off'')"
  by (simp add: probe_defs exampleAccount_def example_stdout_is_clean
      error_on_stderr_not_success_as_specified)

text \<open>The same for a spelling other than the two the code looks for.\<close>

lemma lower_case_of_FATAL_ERROR: "toLowerCase ''FATAL ERROR'' = ''fatal error''"
  by code_simp

lemma success_despite_upper_case_error:
  "map_option status
     (awaitResult (testSingleModel exampleAccount SONNET4 defaultOptions
        \<lparr> events = [(1200, Stdout ''FATAL ERROR''), (2000, Close (Some 0))],
          timersFirst = False, closesStdin = False \<rparr>)) = Some Success
   \<and> \<not> successAsSpecified (Some 0) ''FATAL ERROR'' []"
  by (simp add: probe_defs exampleAccount_def isSuccess_def successAsSpecified_def
      lower_case_of_FATAL_ERROR str_includes_sublist[symmetric])

section \<open>The kind of a failure\<close>

lemma classifyFailure_kind: "fst (classifyFailure code out err) = kindAsSpecified code out err"
  by (simp add: classifyFailure_def kindAsSpecified_def ruleTable_def str_includes_sublist Let_def)

lemma classifyFailure_web_kind: "fst (classifyFailure_web code out err) = kindOfWebServer out err"
  by (simp add: classifyFailure_web_def kindOfWebServer_def ruleTable_def str_includes_sublist Let_def)

lemma failed_closeResultOf:
  "\<not> isSuccess code (output' st) \<Longrightarrow>
   status (closeResultOf v t code st) = Failed \<and>
   errorType (closeResultOf v t code st) =
     Some (case v of BatchChecker \<Rightarrow> kindAsSpecified code (output' st) (errorOutput st)
           | WebServer \<Rightarrow> kindOfWebServer (output' st) (errorOutput st))"
  by (cases v)
     (simp_all add: closeResultOf_def closeResult_def closeResult_web_def Let_def
        classifyFailure_kind classifyFailure_web_kind case_prod_beta)

text \<open>
  C5 (as amended). When the child delivers only output and then exits before the
  timeout, the \<open>close\<close> handler does not find a success, and the probe yields a result,
  the result is a failure of the kind the rule table gives for standard error followed
  by standard output. In the batch checker the table has all five rules, first match
  winning, then a non-zero exit code gives \<open>ProcessError\<close> and anything else \<open>Unknown\<close>.
  In the web server's copy the table ends after the fourth rule, and anything else is
  \<open>Unknown\<close> whatever the exit code.
\<close>

theorem failure_kind_by_rule_table:
  assumes "dataOnly pre" "allBefore tf tmo pre" "\<not> due tf tmo t"
    and "\<not> isSuccess code (stdoutOf pre)"
    and "awaitResult (run_events v tf tmo (pre @ (t, Close code) # post)
                        (initialState account modelName b)) = Some r"
  shows "status r = Failed
         \<and> errorType r =
              Some (case v of
                      BatchChecker \<Rightarrow> kindAsSpecified code (stdoutOf pre) (stderrOf pre)
                    | WebServer \<Rightarrow> kindOfWebServer (stdoutOf pre) (stderrOf pre))"
proof -
  from close_before_timeout[OF assms(1-3), of v code post account modelName b] assms(5)
  obtain st' where out: "output' st' = stdoutOf pre" and err: "errorOutput st' = stderrOf pre"
    and r: "r = closeResultOf v t code st'"
    by auto
  from assms(4) out have "\<not> isSuccess code (output' st')" by simp
  from failed_closeResultOf[OF this, of v t] out err show ?thesis
    unfolding r by (cases v) simp_all
qed

lemma example_auth_failure:
  "\<not> isSuccess (Some 1) []"
  "kindAsSpecified (Some 1) [] ''API error: 401 unauthorized'' = AuthFailed"
  "classifyFailure (Some 1) [] ''API error: 401 unauthorized'' = (AuthFailed, msg_auth)"
  by (simp_all add: isSuccess_def kindAsSpecified_def ruleTable_def classifyFailure_def
      str_includes_sublist[symmetric])

lemma example_failed_run:
  "awaitResult (run_events BatchChecker False 45000
           ([(300, Stderr ''API error: 401 unauthorized'')] @ (400, Close (Some 1)) # [])
           (initialState exampleAccount SONNET4 False))
     = Some \<lparr> model = SONNET4, status = Failed, responseTime = 400, error = Some msg_auth,
              response = None, speed = None, actualModel = None,
              errorType = Some AuthFailed \<rparr>"
  by (simp add: probe_defs example_auth_failure)

theorem failure_kind_by_rule_table_witness:
  "dataOnly [(300, Stderr ''API error: 401 unauthorized'')]
   \<and> allBefore False 45000 [(300, Stderr ''API error: 401 unauthorized'')]
   \<and> \<not> due False 45000 400
   \<and> \<not> isSuccess (Some 1) (stdoutOf [(300, Stderr ''API error: 401 unauthorized'')])
   \<and> awaitResult (run_events BatchChecker False 45000
           ([(300, Stderr ''API error: 401 unauthorized'')] @ (400, Close (Some 1)) # [])
           (initialState exampleAccount SONNET4 False))
      = Some \<lparr> model = SONNET4, status = Failed, responseTime = 400, error = Some msg_auth,
               response = None, speed = None, actualModel = None,
               errorType = Some AuthFailed \<rparr>
   \<and> kindAsSpecified (Some 1) (stdoutOf [(300, Stderr ''API error: 401 unauthorized'')])
        (stderrOf [(300, Stderr ''API error: 401 unauthorized'')]) = AuthFailed"
proof -
  let ?pre = "[(300::nat, Stderr ''API error: 401 unauthorized'')]"
  have out: "stdoutOf ?pre = []" "stderrOf ?pre = ''API error: 401 unauthorized''"
    by (simp_all add: stdoutOf_def stderrOf_def)
  have h: "dataOnly ?pre" "allBefore False 45000 ?pre" "\<not> due False 45000 400"
    "\<not> isSuccess (Some 1) (stdoutOf ?pre)"
    by (simp_all add: dataOnly_def allBefore_def due_def out example_auth_failure)
  from failure_kind_by_rule_table[OF h example_failed_run] h example_failed_run
  show ?thesis by simp
qed

text \<open>
  C5 as stated fails on the web server's copy of the probe: a child that prints
  \<open>model not found\<close> on standard error and exits with code 1 is not classified by the
  fifth rule, nor by its exit code.
\<close>

lemma example_model_not_found:
  "kindAsSpecified (Some 1) [] ''model not found'' = ModelUnavailable"
  "classifyFailure_web (Some 1) [] ''model not found'' = (Unknown, ''model not found'')"
  "\<not> isSuccess (Some 1) []"
  by (simp_all add: kindAsSpecified_def ruleTable_def isSuccess_def classifyFailure_web_def
      substring0_def str_includes_sublist[symmetric])

theorem web_probe_model_not_found_counterexample:
  "map_option errorType
     (awaitResult (testSingleModel_web exampleAccount SONNET4
        \<lparr> events = [(500, Stderr ''model not found''), (600, Close (Some 1))],
          timersFirst = False, closesStdin = False \<rparr>))
   \<noteq> Some (Some (kindAsSpecified (Some 1) [] ''model not found''))"
  by (simp add: probe_defs exampleAccount_def example_model_not_found)

section \<open>The account validator: facts\<close>

lemma spawned_deliver: "spawned (deliver v t e st) = spawned st"
  by (cases e; cases v)
     (simp_all add: on_stdout_def on_stderr_def on_close_def on_close_web_def on_error_def Let_def)

lemma spawned_fire_timers: "spawned (fire_timers v tf tmo now st) = spawned st"
  by (simp add: fire_timers_def fire_warmup_fields fire_timeout_fields)

lemma spawned_step: "spawned (step v tf tmo x st) = spawned st"
  by (simp add: step_def Let_def spawned_deliver spawned_fire_timers)

lemma spawned_feed: "spawned (feed v tf tmo es st) = spawned st"
  by (induction es arbitrary: st) (simp_all add: spawned_step)

lemma spawned_run_events: "spawned (run_events v tf tmo es st) = spawned st"
  by (simp add: run_events_def spawned_fire_timers spawned_feed)

lemma resolved_spawnFailed: "resolved (spawnFailed account modelName) = []"
  by (simp add: spawnFailed_def initialState_def)

text \<open>A probe that yields a result has spawned exactly one process, for its model.\<close>

lemma spawned_testSingleModel:
  assumes "awaitResult (testSingleModel account modelName opts c) = Some r"
  shows "map arguments (spawned (testSingleModel account modelName opts c))
           = [[''--model'', modelName]]"
proof (cases "spawnThrows account")
  case True
  with assms show ?thesis
    by (simp add: testSingleModel_def awaitResult_def resolved_spawnFailed)
next
  case False
  then show ?thesis
    by (simp add: testSingleModel_def spawned_run_events initialState_def)
qed

text \<open>
  C3. Whenever the validation of an account yields a result: the primary result is what
  awaiting the first probe yields; the secondary probe's result has status \<open>Skipped\<close>
  if and only if the primary result has a status other than \<open>Success\<close>; in that case
  the only process spawned is the one for the primary model, and otherwise one is
  spawned for each model.
\<close>

theorem secondary_skipped_iff_primary_not_success:
  assumes "testAccountDirect account opts c1 c2 = Some (r, sp)"
  shows "awaitResult (testSingleModel account SONNET4 opts c1) = Some (sonnet4 r)
      \<and> (status (opus41 r) = Skipped \<longleftrightarrow> status (sonnet4 r) \<noteq> Success)
      \<and> map arguments sp =
          (if status (sonnet4 r) \<noteq> Success then [[''--model'', SONNET4]]
           else [[''--model'', SONNET4], [''--model'', OPUS41]])"
proof -
  from assms obtain s4 where s4: "awaitResult (testSingleModel account SONNET4 opts c1) = Some s4"
    by (auto simp: testAccountDirect_def Let_def split: option.splits)
  note sp1 = spawned_testSingleModel[OF s4]
  show ?thesis
  proof (cases "status s4 = Success")
    case True
    with assms s4 obtain o41 where
      o41: "awaitResult (testSingleModel account OPUS41 opts c2) = Some o41"
      by (auto simp: testAccountDirect_def Let_def split: option.splits)
    from probe_awaited[OF o41] have st: "status o41 = Success \<or> status o41 = Failed" .
    note sp2 = spawned_testSingleModel[OF o41]
    from assms s4 o41 True st sp1 sp2 show ?thesis
      by (auto simp: testAccountDirect_def Let_def)
  next
    case False
    with assms s4 sp1 show ?thesis
      by (auto simp: testAccountDirect_def Let_def skippedProbe_def)
  qed
qed

text \<open>
  C4. Whenever the validation of an account yields a result, the statuses of the two
  probes and the overall status are one of three combinations: both succeed, only the
  primary succeeds, or the primary fails and the secondary is skipped. So the overall
  status is a function of the pair of probe statuses, and no other combination is
  reachable.
\<close>

theorem overall_status_table:
  assumes "testAccountDirect account opts c1 c2 = Some (r, sp)"
  shows "(status (sonnet4 r), status (opus41 r), overallStatus r)
          \<in> {(Success, Success, BothSuccess), (Success, Failed, SonnetOnly),
             (Failed, Skipped, BothFailed)}"
proof -
  from assms obtain s4 where s4: "awaitResult (testSingleModel account SONNET4 opts c1) = Some s4"
    by (auto simp: testAccountDirect_def Let_def split: option.splits)
  from probe_awaited[OF s4] have st4: "status s4 = Success \<or> status s4 = Failed" .
  show ?thesis
  proof (cases "status s4 = Success")
    case True
    with assms s4 obtain o41 where
      o41: "awaitResult (testSingleModel account OPUS41 opts c2) = Some o41"
      by (auto simp: testAccountDirect_def Let_def split: option.splits)
    from probe_awaited[OF o41] have st: "status o41 = Success \<or> status o41 = Failed" .
    from assms s4 o41 True st show ?thesis
      by (auto simp: testAccountDirect_def Let_def)
  next
    case False
    with assms s4 st4 show ?thesis
      by (auto simp: testAccountDirect_def Let_def skippedProbe_def)
  qed
qed

text \<open>
  The validation yields a value when \<open>spawn\<close> does not throw and both children keep
  their standard input open.
\<close>

lemma testAccountDirect_returns:
  assumes "\<not> spawnThrows account" "\<not> closesStdin c1" "\<not> closesStdin c2"
  shows "testAccountDirect account opts c1 c2 \<noteq> None"
proof -
  obtain s4 where s4: "awaitResult (testSingleModel account SONNET4 opts c1) = Some s4"
    using probe_resolves_once_when_healthy[OF assms(1,2)] by blast
  obtain o41 where o41: "awaitResult (testSingleModel account OPUS41 opts c2) = Some o41"
    using probe_resolves_once_when_healthy[OF assms(1,3)] by blast
  from s4 o41 show ?thesis by (simp add: testAccountDirect_def Let_def)
qed

lemma example_probe:
  "awaitResult (testSingleModel exampleAccount m defaultOptions exampleChild)
     = Some (exampleReply m)"
  "spawned (testSingleModel exampleAccount m defaultOptions exampleChild) = [exampleSpawn m]"
  by (simp_all add: probe_defs exampleChild_def exampleAccount_def exampleReply_def
      exampleSpawn_def isSuccess_def speedOf_def substring0_def example_reply_strings)

lemma example_validation:
  "testAccountDirect exampleAccount defaultOptions exampleChild exampleChild
     = Some (exampleResult, [exampleSpawn SONNET4, exampleSpawn OPUS41])"
  by (simp add: testAccountDirect_def example_probe Let_def)
     (simp add: exampleReply_def exampleResult_def exampleAccount_def substring0_def)

theorem secondary_skipped_iff_primary_not_success_witness:
  "testAccountDirect exampleAccount defaultOptions exampleChild exampleChild
     = Some (exampleResult, [exampleSpawn SONNET4, exampleSpawn OPUS41])
   \<and> awaitResult (testSingleModel exampleAccount SONNET4 defaultOptions exampleChild)
       = Some (sonnet4 exampleResult)
   \<and> status (sonnet4 exampleResult) = Success
   \<and> status (opus41 exampleResult) \<noteq> Skipped
   \<and> map arguments [exampleSpawn SONNET4, exampleSpawn OPUS41]
       = [[''--model'', SONNET4], [''--model'', OPUS41]]"
proof -
  have s: "status (sonnet4 exampleResult) = Success"
    by (simp add: exampleResult_def exampleReply_def)
  from secondary_skipped_iff_primary_not_success[OF example_validation] s example_validation
  show ?thesis by simp
qed

theorem overall_status_table_witness:
  "testAccountDirect exampleAccount defaultOptions exampleChild exampleChild
     = Some (exampleResult, [exampleSpawn SONNET4, exampleSpawn OPUS41])
   \<and> (status (sonnet4 exampleResult), status (opus41 exampleResult), overallStatus exampleResult)
       = (Success, Success, BothSuccess)"
proof -
  have s: "overallStatus exampleResult = BothSuccess"
    by (simp add: exampleResult_def)
  from overall_status_table[OF example_validation] s example_validation
  show ?thesis by auto
qed


section \<open>Probes that yield no result\<close>

text \<open>
  \<open>resolve\<close> is never called twice (\<open>probe_resolves_at_most_once\<close>), and it is called
  once when \<open>spawn\<close> returns a child and the child keeps its standard input open
  (\<open>probe_resolves_once_when_healthy\<close>).

  C2, at two inputs. For an account whose credential contains a NUL character \<open>spawn\<close>
  throws inside the executor: the promise is rejected and \<open>resolve\<close> is not called. For a
  child that closes its standard input and does not exit within the first second, the
  write of the question fails after the \<open>try\<close>/\<open>catch\<close> has been left: the program ends
  before \<open>resolve\<close> is called. Neither probe yields a result.
\<close>

theorem probe_without_result:
  "spawnThrows nulAccount
   \<and> resolved (testSingleModel nulAccount SONNET4 defaultOptions exampleChild) = []
   \<and> rejected (testSingleModel nulAccount SONNET4 defaultOptions exampleChild)
   \<and> awaitResult (testSingleModel nulAccount SONNET4 defaultOptions exampleChild) = None
   \<and> resolved (testSingleModel exampleAccount SONNET4 defaultOptions deafChild) = []
   \<and> crashed (testSingleModel exampleAccount SONNET4 defaultOptions deafChild)
   \<and> awaitResult (testSingleModel exampleAccount SONNET4 defaultOptions deafChild) = None"
  by (simp add: probe_defs nulAccount_def exampleAccount_def deafChild_def)

section \<open>Batch execution: facts\<close>

lemma slice_chunk:
  "0 < P \<Longrightarrow> slice xs (Some (int i)) (Some (int i + P)) = take (nat P) (drop i xs)"
  by (auto simp: slice_def sliceIndex_def Let_def min_def nat_add_distrib)

lemma chunkLoop_chunksOf:
  assumes "0 < P"
  shows "chunkLoop xs (Some P) (Some (int i)) chunks = Some (chunks @ chunksOf (nat P) (drop i xs))"
proof (induction "length xs - i" arbitrary: i chunks rule: less_induct)
  case less
  show ?case
  proof (cases "i < length xs")
    case True
    have P: "nat P > 0" "int (nat P) = P" using assms by simp_all
    have m: "length xs - (i + nat P) < length xs - i" using True P by linarith
    have step: "chunkLoop xs (Some P) (Some (int i)) chunks
        = chunkLoop xs (Some P) (Some (int (i + nat P))) (chunks @ [take (nat P) (drop i xs)])"
      using True assms
      by (subst chunkLoop.simps) (simp add: js_add_def slice_chunk)
    have "chunksOf (nat P) (drop i xs) = take (nat P) (drop i xs) # chunksOf (nat P) (drop (i + nat P) xs)"
      using True P by (subst chunksOf.simps) (simp add: add.commute)
    with less[OF m] step show ?thesis by simp
  next
    case False
    then show ?thesis
      by (subst chunkLoop.simps) (simp add: chunksOf.simps)
  qed
qed

lemma concat_chunksOf: "0 < P \<Longrightarrow> concat (chunksOf P xs) = xs"
proof (induction P xs rule: chunksOf.induct)
  case (1 P xs)
  then show ?case by (subst chunksOf.simps) auto
qed

lemma length_chunksOf_le: "length (chunksOf P xs) \<le> length xs"
proof (induction P xs rule: chunksOf.induct)
  case (1 P xs)
  show ?case
  proof (cases "P = 0 \<or> xs = []")
    case True
    then show ?thesis by (subst chunksOf.simps) simp
  next
    case False
    with 1 have "length (chunksOf P (drop P xs)) \<le> length xs - P" by simp
    with False show ?thesis by (subst chunksOf.simps) (cases xs; simp; linarith)
  qed
qed

lemma nth_chunksOf:
  "k < length (chunksOf P xs) \<Longrightarrow>
   chunksOf P xs ! k = take P (drop (k * P) xs) \<and> chunksOf P xs ! k \<noteq> []"
proof (induction P xs arbitrary: k rule: chunksOf.induct)
  case (1 P xs)
  show ?case
  proof (cases "P = 0 \<or> xs = []")
    case True
    with 1(2) show ?thesis by (simp add: chunksOf.simps)
  next
    case False
    then have eq: "chunksOf P xs = take P xs # chunksOf P (drop P xs)"
      by (subst chunksOf.simps) simp
    show ?thesis
    proof (cases k)
      case 0
      with eq False show ?thesis by simp
    next
      case (Suc k')
      with 1(2) eq have "k' < length (chunksOf P (drop P xs))" by simp
      from 1(1)[OF False this]
      have a: "chunksOf P (drop P xs) ! k' = take P (drop (k' * P) (drop P xs))"
        and b: "chunksOf P (drop P xs) ! k' \<noteq> []" by blast+
      have nth: "chunksOf P xs ! k = chunksOf P (drop P xs) ! k'"
        using Suc eq by simp
      have dr: "drop (k' * P) (drop P xs) = drop (k * P) xs"
        using Suc by (simp add: add.commute)
      from b show ?thesis unfolding nth a dr by blast
    qed
  qed
qed



lemma chunkLogs_append:
  "chunkLogs w n (cs1 @ cs2) = chunkLogs w n cs1 @ chunkLogs w (n + length (concat cs1)) cs2"
  by (induction cs1 arbitrary: n) (simp_all add: add.assoc)

lemma set_chunkLogs:
  "set (chunkLogs w n cs)
     = Started ` {n ..< n + length (concat cs)} \<union> Finished ` {n ..< n + length (concat cs)}"
proof (induction cs arbitrary: n)
  case Nil
  then show ?case by simp
next
  case (Cons c cs)
  have "{n ..< n + (length c + length (concat cs))}
      = {n ..< n + length c} \<union> {n + length c ..< n + length c + length (concat cs)}"
    by auto
  then show ?case by (simp add: Cons.IH image_Un Un_ac)
qed

lemma chunksOf_append:
  "length ys = b * P \<Longrightarrow> chunksOf P (ys @ zs) = chunksOf P ys @ chunksOf P zs"
proof (induction b arbitrary: ys)
  case 0
  then show ?case by (simp add: chunksOf.simps[of P "[]"])
next
  case (Suc b)
  show ?case
  proof (cases "P = 0")
    case True
    then show ?thesis by (simp add: chunksOf.simps)
  next
    case False
    with Suc.prems have ne: "ys \<noteq> []" and len: "length (drop P ys) = b * P" and ge: "P \<le> length ys"
      by auto
    from False ne ge have "chunksOf P (ys @ zs) = take P ys # chunksOf P (drop P ys @ zs)"
      by (subst chunksOf.simps) simp
    also have "\<dots> = take P ys # chunksOf P (drop P ys) @ chunksOf P zs"
      by (simp add: Suc.IH[OF len])
    also have "\<dots> = chunksOf P ys @ chunksOf P zs"
      using False ne by (subst (2) chunksOf.simps) simp
    finally show ?thesis .
  qed
qed

lemma chunk_before_chunk:
  assumes "0 < P" "j < length xs" "i div P < j div P"
  shows "\<exists>pre post. chunkLogs w 0 (chunksOf P xs) = pre @ post
           \<and> Finished i \<in> set pre \<and> Started j \<in> set post \<and> Started j \<notin> set pre"
proof -
  let ?cut = "(j div P) * P"
  let ?ys = "take ?cut xs" and ?zs = "drop ?cut xs"
  have cut_le: "?cut \<le> j" by simp
  with assms(2) have "?cut \<le> length xs" by linarith
  then have len: "length ?ys = (j div P) * P" by (simp add: min_absorb2)
  have i_lt: "i < ?cut"
  proof -
    have "i < (i div P + 1) * P" using assms(1)
      by (metis Suc_eq_plus1 dividend_less_div_times mult.commute mult_Suc_right)
    also have "\<dots> \<le> ?cut" using assms(3) by (simp add: Suc_leI mult_le_mono1 del: mult_Suc)
    finally show ?thesis .
  qed
  have "chunksOf P xs = chunksOf P ?ys @ chunksOf P ?zs"
    using chunksOf_append[OF len, of ?zs] by simp
  then have split: "chunkLogs w 0 (chunksOf P xs)
      = chunkLogs w 0 (chunksOf P ?ys) @ chunkLogs w (length ?ys) (chunksOf P ?zs)"
    by (simp add: chunkLogs_append concat_chunksOf[OF assms(1)])
  have "Finished i \<in> set (chunkLogs w 0 (chunksOf P ?ys))"
    using i_lt len by (simp add: set_chunkLogs concat_chunksOf[OF assms(1)] del: length_take)
  moreover have "Started j \<in> set (chunkLogs w (length ?ys) (chunksOf P ?zs))"
    using cut_le assms(2) len
    by (simp add: set_chunkLogs concat_chunksOf[OF assms(1)] del: length_take)
  moreover have "Started j \<notin> set (chunkLogs w 0 (chunksOf P ?ys))"
  proof -
    have nj: "j < ?cut \<Longrightarrow> False"
      using div_times_less_eq_dividend[of j P] by linarith
    show ?thesis
      using nj len by (auto simp add: set_chunkLogs concat_chunksOf[OF assms(1)] simp del: length_take)
  qed
  ultimately show ?thesis using split by blast
qed


text \<open>A bound of 0 is no bound: with at least one account the chunking loop runs for ever.\<close>

lemma chunkLoop_zero_no_result:
  "chunkLoop ys par i cs = Some y \<Longrightarrow> \<not> (par = Some 0 \<and> i = Some 0 \<and> ys \<noteq> [])"
proof (rule chunkLoop.raw_induct[where P = "\<lambda>ys par i cs y. \<not> (par = Some 0 \<and> i = Some 0 \<and> ys \<noteq> [])"])
  fix f :: "'a list \<Rightarrow> int option \<Rightarrow> int option \<Rightarrow> 'a list list \<Rightarrow> 'a list list option"
    and ys par i cs y
  assume IH: "\<And>ys par i cs y. f ys par i cs = Some y \<Longrightarrow> \<not> (par = Some 0 \<and> i = Some 0 \<and> ys \<noteq> [])"
    and body: "(if i \<noteq> None \<and> the i < int (length ys)
                then f ys par (js_add i par) (cs @ [slice ys i (js_add i par)])
                else Some cs) = Some y"
  show "\<not> (par = Some 0 \<and> i = Some 0 \<and> ys \<noteq> [])"
  proof
    assume a: "par = Some 0 \<and> i = Some 0 \<and> ys \<noteq> []"
    with body have "f ys par (js_add i par) (cs @ [slice ys i (js_add i par)]) = Some y"
      by (simp split: if_splits)
    from IH[OF this] a show False by (simp add: js_add_def)
  qed
qed

lemma chunkLoop_zero_never_ends:
  "xs \<noteq> [] \<Longrightarrow> chunkLoop xs (Some 0) (Some 0) chunks = None"
  using chunkLoop_zero_no_result[of xs "Some 0" "Some 0" chunks]
  by (cases "chunkLoop xs (Some 0) (Some 0) chunks") auto


lemma promiseAll_cases:
  "promiseAll xs = (if list_all (\<lambda>x. x \<noteq> None) xs then Some (map the xs) else None)"
  by (induction xs) (auto split: option.splits)

lemma allValidated_append:
  "allValidated opts w n (xs @ ys)
     = (allValidated opts w n xs \<and> allValidated opts w (n + length xs) ys)"
proof -
  have "[n ..< n + (length xs + length ys)]
      = [n ..< n + length xs] @ [n + length xs ..< n + length xs + length ys]"
    by (metis add.assoc le_add1 upt_add_eq_append)
  then show ?thesis by (simp add: allValidated_def)
qed

lemma promiseAll_validate:
  "promiseAll (map2 (validate opts w) [n ..< n + length c] c)
     = (if allValidated opts w n c
        then Some (map the (map2 (validate opts w) [n ..< n + length c] c)) else None)"
  by (simp add: promiseAll_cases allValidated_def list_all_iff case_prod_beta)

lemma runChunks_closed_form:
  "runChunks opts w cs (results, n, log) =
     (if allValidated opts w n (concat cs)
      then Some (results @ map2 (resultOf opts w) [n ..< n + length (concat cs)] (concat cs),
                 n + length (concat cs), log @ chunkLogs w n cs)
      else None)"
proof (induction cs arbitrary: results n log)
  case Nil
  then show ?case by (simp add: allValidated_def)
next
  case (Cons c cs)
  have z: "map2 (resultOf opts w) [n ..< n + (length c + length (concat cs))] (c @ concat cs)
      = map2 (resultOf opts w) [n ..< n + length c] c
        @ map2 (resultOf opts w) [n + length c ..< n + length c + length (concat cs)] (concat cs)"
  proof -
    have "[n ..< n + (length c + length (concat cs))]
        = [n ..< n + length c] @ [n + length c ..< n + length c + length (concat cs)]"
      by (metis add.assoc le_add1 upt_add_eq_append)
    then show ?thesis by simp
  qed
  have m: "map fst (map the (map2 (validate opts w) [n ..< n + length c] c))
      = map2 (resultOf opts w) [n ..< n + length c] c"
    by (simp add: resultOf_def comp_def case_prod_beta)
  show ?case
    by (simp add: promiseAll_validate Let_def Cons.IH z m add.assoc allValidated_append
        del: map_map)
qed

lemma batchTest_closed_form:
  assumes "parallel opts = Some P" "0 < P"
  shows "batchTest accounts opts w
           = (if allValidated opts w 0 accounts
              then Some (map2 (resultOf opts w) [0 ..< length accounts] accounts,
                         chunkLogs w 0 (chunksOf (nat P) accounts))
              else None)"
proof -
  have P: "0 < nat P" using assms(2) by simp
  have loop: "chunkLoop accounts (parallel opts) (Some 0) [] = Some (chunksOf (nat P) accounts)"
    using chunkLoop_chunksOf[OF assms(2), of accounts 0 "[]"] assms(1) by simp
  show ?thesis
    by (simp add: batchTest_def loop runChunks_closed_form concat_chunksOf[OF P])
qed

lemma allValidated_nth:
  assumes "allValidated opts w 0 accounts" "i < length accounts"
  shows "\<exists>sp. validate opts w i (accounts ! i) = Some (resultOf opts w i (accounts ! i), sp)"
proof -
  from assms(1) have "\<forall>k < length accounts. validate opts w k (accounts ! k) \<noteq> None"
    by (simp add: allValidated_def list_all_length)
  with assms(2) have "validate opts w i (accounts ! i) \<noteq> None" by blast
  then show ?thesis by (auto simp: resultOf_def)
qed

text \<open>
  C6. For every list of accounts and every concurrency bound \<open>P \<ge> 1\<close>, in every world
  (so whatever the order in which the validations of a chunk complete), whenever the
  batch run yields its results: the chunking loop has ended, and its chunks are the list
  cut into consecutive pieces of \<open>P\<close> accounts, none of them empty; the results are,
  position by position, the results of validating the accounts of the input list; and
  whenever account \<open>j\<close> lies in a later chunk than account \<open>i\<close>, the log splits into a
  part in which \<open>i\<close> has completed and \<open>j\<close> has not started, and a rest in which \<open>j\<close>
  starts. (By \<open>batchTest_closed_form\<close> the run yields its results exactly when every
  validation yields one.)
\<close>

theorem batch_chunks_in_order:
  assumes "parallel opts = Some P" "0 < P"
    and "batchTest accounts opts w = Some (results, log)"
  shows "\<exists>chunks.
      chunkLoop accounts (parallel opts) (Some 0) [] = Some chunks
    \<and> concat chunks = accounts
    \<and> (\<forall>k < length chunks. chunks ! k = take (nat P) (drop (k * nat P) accounts) \<and> chunks ! k \<noteq> [])
    \<and> length results = length accounts
    \<and> (\<forall>i < length accounts. \<exists>sp. validate opts w i (accounts ! i) = Some (results ! i, sp))
    \<and> (\<forall>i j. j < length accounts \<and> i div nat P < j div nat P \<longrightarrow>
          (\<exists>pre post. log = pre @ post \<and> Finished i \<in> set pre \<and> Started j \<in> set post
                      \<and> Started j \<notin> set pre))"
proof -
  let ?P = "nat P"
  let ?chunks = "chunksOf ?P accounts"
  have P: "0 < ?P" using assms(2) by simp
  have loop: "chunkLoop accounts (parallel opts) (Some 0) [] = Some ?chunks"
    using chunkLoop_chunksOf[OF assms(2), of accounts 0 "[]"] assms(1) by simp
  have cc: "concat ?chunks = accounts" by (rule concat_chunksOf[OF P])
  from assms(3) batchTest_closed_form[OF assms(1,2), of accounts w]
  have av: "allValidated opts w 0 accounts"
    and res: "results = map2 (resultOf opts w) [0 ..< length accounts] accounts"
    and lg: "log = chunkLogs w 0 ?chunks"
    by (auto split: if_splits)
  have nth: "\<forall>k < length ?chunks. ?chunks ! k = take ?P (drop (k * ?P) accounts) \<and> ?chunks ! k \<noteq> []"
    using nth_chunksOf by blast
  have len: "length results = length accounts" by (simp add: res)
  have pos: "\<forall>i < length accounts. \<exists>sp. validate opts w i (accounts ! i) = Some (results ! i, sp)"
    using allValidated_nth[OF av] by (simp add: res)
  have ord: "\<forall>i j. j < length accounts \<and> i div ?P < j div ?P \<longrightarrow>
          (\<exists>pre post. log = pre @ post \<and> Finished i \<in> set pre \<and> Started j \<in> set post
                      \<and> Started j \<notin> set pre)"
    unfolding lg using chunk_before_chunk[OF P] by blast
  from loop cc nth len pos ord show ?thesis by blast
qed

lemma name_testAccountDirect:
  "testAccountDirect a opts c1 c2 = Some (r, sp) \<Longrightarrow> name r = name a"
  by (auto simp: testAccountDirect_def Let_def split: option.splits if_splits)

lemma exampleOptions_parallel: "parallel (defaultOptions\<lparr>parallel := Some 2\<rparr>) = Some 2"
  by simp

lemma example_log:
  "chunkLogs exampleWorld 0 (chunksOf 2 exampleAccounts)
     = [Started 0, Started 1, Finished 1, Finished 0, Started 2, Finished 2]"
proof -
  have c: "chunksOf 2 exampleAccounts
      = [[exampleAccount, exampleAccount\<lparr>name := ''team-2''\<rparr>], [exampleAccount\<lparr>name := ''team-3''\<rparr>]]"
    by (simp add: exampleAccounts_def chunksOf.simps)
  have u: "[0 ..< 2] = [0, Suc 0]" "[2 ..< 3] = [2::nat]"
    by (simp_all add: upt_rec)
  show ?thesis
    by (simp add: c u exampleWorld_def)
qed

lemma example_all_validated:
  "allValidated (defaultOptions\<lparr>parallel := Some 2\<rparr>) exampleWorld 0 exampleAccounts"
proof -
  have "validate (defaultOptions\<lparr>parallel := Some 2\<rparr>) exampleWorld k (exampleAccount\<lparr>name := n\<rparr>)
          \<noteq> None" for k n
    unfolding validate_def
    by (rule testAccountDirect_returns)
       (simp_all add: spawnThrows_def exampleAccount_def exampleWorld_def exampleChild_def)
  from this[of _ "''team-1''"] this[of _ "''team-2''"] this[of _ "''team-3''"]
  show ?thesis
    by (simp add: allValidated_def exampleAccounts_def upt_rec exampleAccount_def)
qed

text \<open>
  An instance: three accounts, \<open>P = 2\<close>, and a world in which the second validation of
  the first chunk completes before the first. The results are in the order of the input.
\<close>

theorem batch_chunks_in_order_witness:
  "parallel (defaultOptions\<lparr>parallel := Some 2\<rparr>) = Some 2 \<and> (0::int) < 2
   \<and> (\<exists>results log.
         batchTest exampleAccounts (defaultOptions\<lparr>parallel := Some 2\<rparr>) exampleWorld
           = Some (results, log)
         \<and> length results = 3
         \<and> map name results = [''team-1'', ''team-2'', ''team-3'']
         \<and> log = [Started 0, Started 1, Finished 1, Finished 0, Started 2, Finished 2])"
proof -
  let ?opts = "defaultOptions\<lparr>parallel := Some 2\<rparr>"
  have two: "(0::int) < 2" by simp
  define results where
    "results = map2 (resultOf ?opts exampleWorld) [0 ..< length exampleAccounts] exampleAccounts"
  have run: "batchTest exampleAccounts ?opts exampleWorld
               = Some (results, chunkLogs exampleWorld 0 (chunksOf 2 exampleAccounts))"
    using batchTest_closed_form[OF exampleOptions_parallel two, of exampleAccounts exampleWorld]
      example_all_validated by (simp add: results_def)
  from batch_chunks_in_order[OF exampleOptions_parallel two run]
  have len: "length results = length exampleAccounts"
    and pos: "\<forall>i < length exampleAccounts.
               \<exists>sp. validate ?opts exampleWorld i (exampleAccounts ! i) = Some (results ! i, sp)"
    by blast+
  have nm: "name (results ! i) = name (exampleAccounts ! i)" if "i < length exampleAccounts" for i
    using pos that name_testAccountDirect unfolding validate_def by blast
  have l3: "length results = 3" using len by (simp add: exampleAccounts_def)
  have "map name results = map name exampleAccounts"
    by (rule nth_equalityI) (simp_all add: len nm)
  then have names: "map name results = [''team-1'', ''team-2'', ''team-3'']"
    by (simp add: exampleAccounts_def exampleAccount_def)
  from run l3 names example_log show ?thesis by simp
qed

section \<open>Command line and environment: facts\<close>

text \<open>
  C8, at an invocation without \<open>--dingtalk-webhook\<close> and with the environment variable
  \<open>DINGTALK_WEBHOOK\<close> set: the webhook of the options is the compiled default, not the
  value of the variable.
\<close>

theorem env_webhook_not_used:
  "truthy (exampleEnv ''DINGTALK_WEBHOOK'')
   \<and> map_sum id dingTalkWebhook (parseArgs [''accounts.csv''] exampleEnv) = Inr (Some DEFAULT_WEBHOOK)"
  by (simp add: parseArgs_def parseArg_def defaultOptions_def truthy_def exampleEnv_def
      DEFAULT_WEBHOOK_def Let_def)

lemma parseArg_keeps_webhook:
  "a \<noteq> ''--dingtalk-webhook'' \<Longrightarrow> dingTalkWebhook (snd (parseArg a rest opts)) = dingTalkWebhook opts"
  by (simp add: parseArg_def)

lemma parseLoop_keeps_webhook:
  "''--dingtalk-webhook'' \<notin> set args \<Longrightarrow> dingTalkWebhook (parseLoop args opts) = dingTalkWebhook opts"
proof (induction args opts rule: parseLoop.induct)
  case (1 opts)
  then show ?case by simp
next
  case (2 a rest opts)
  from 2(2) have a: "a \<noteq> ''--dingtalk-webhook''" and r: "''--dingtalk-webhook'' \<notin> set rest"
    by auto
  from r have "''--dingtalk-webhook'' \<notin> set (if fst (parseArg a rest opts) then tl rest else rest)"
    by (cases rest) auto
  from 2(1)[OF this] a show ?case by (simp add: parseArg_keeps_webhook)
qed

lemma default_webhook_always_wins:
  assumes "''--dingtalk-webhook'' \<notin> set args" "parseArgs args env = Inr opts"
  shows "dingTalkWebhook opts = Some DEFAULT_WEBHOOK"
proof -
  have "dingTalkWebhook (parseLoop args defaultOptions) = Some DEFAULT_WEBHOOK"
    using parseLoop_keeps_webhook[OF assms(1)] by (simp add: defaultOptions_def)
  moreover have "truthy (Some DEFAULT_WEBHOOK)" by (simp add: truthy_def DEFAULT_WEBHOOK_def)
  ultimately show ?thesis using assms(2)
    by (auto simp: parseArgs_def Let_def split: if_splits)
qed

section \<open>The notification: facts\<close>

lemma slice_first: "slice xs (Some 0) (Some (int n)) = take n xs"
  by (simp add: slice_def sliceIndex_def Let_def min_def)

text \<open>
  C10. The notification message depends on the fully failed accounts only through the
  first ten of them and their number, and on the partly failed accounts only through the
  first ten of them and their number: two result lists that agree on these yield the
  same message. So at most ten accounts of each category are named, and an account
  beyond the tenth of its category contributes to the remainder count and to nothing
  else.
\<close>

theorem notification_first_ten:
  assumes "take 10 (withStatus BothFailed rs) = take 10 (withStatus BothFailed rs')"
    and "length (withStatus BothFailed rs) = length (withStatus BothFailed rs')"
    and "take 10 (withStatus SonnetOnly rs) = take 10 (withStatus SonnetOnly rs')"
    and "length (withStatus SonnetOnly rs) = length (withStatus SonnetOnly rs')"
  shows "buildNotificationMessage timestamp rs st = buildNotificationMessage timestamp rs' st"
proof -
  have s: "slice xs (Some 0) (Some 10) = take 10 xs" for xs :: "account_result list"
    using slice_first[of xs 10] by simp
  show ?thesis
    unfolding buildNotificationMessage_def Let_def s withStatus_def[symmetric] assms
    by (rule refl)
qed

theorem notification_first_ten_witness:
  "take 10 (withStatus BothFailed (replicate 10 (failedResult ''a'') @ [failedResult ''b'']))
     = take 10 (withStatus BothFailed (replicate 10 (failedResult ''a'') @ [failedResult ''c'']))
   \<and> length (withStatus BothFailed (replicate 10 (failedResult ''a'') @ [failedResult ''b'']))
     = length (withStatus BothFailed (replicate 10 (failedResult ''a'') @ [failedResult ''c'']))
   \<and> take 10 (withStatus SonnetOnly (replicate 10 (failedResult ''a'') @ [failedResult ''b'']))
     = take 10 (withStatus SonnetOnly (replicate 10 (failedResult ''a'') @ [failedResult ''c'']))
   \<and> length (withStatus SonnetOnly (replicate 10 (failedResult ''a'') @ [failedResult ''b'']))
     = length (withStatus SonnetOnly (replicate 10 (failedResult ''a'') @ [failedResult ''c'']))
   \<and> failedResult ''b'' \<noteq> failedResult ''c''
   \<and> buildNotificationMessage ''2025-09-01 08:00:00'' (replicate 10 (failedResult ''a'') @ [failedResult ''b''])
       \<lparr> total = 11, both_success = 0, sonnet_only = 0, both_failed = 11 \<rparr>
     = buildNotificationMessage ''2025-09-01 08:00:00'' (replicate 10 (failedResult ''a'') @ [failedResult ''c''])
       \<lparr> total = 11, both_success = 0, sonnet_only = 0, both_failed = 11 \<rparr>"
proof -
  let ?rs = "replicate 10 (failedResult ''a'') @ [failedResult ''b'']"
  let ?rs' = "replicate 10 (failedResult ''a'') @ [failedResult ''c'']"
  have f: "overallStatus (failedResult n) = BothFailed" for n
    by (simp add: failedResult_def)
  have h: "take 10 (withStatus BothFailed ?rs) = take 10 (withStatus BothFailed ?rs')"
    "length (withStatus BothFailed ?rs) = length (withStatus BothFailed ?rs')"
    "take 10 (withStatus SonnetOnly ?rs) = take 10 (withStatus SonnetOnly ?rs')"
    "length (withStatus SonnetOnly ?rs) = length (withStatus SonnetOnly ?rs')"
    by (simp_all add: withStatus_def f)
  have d: "failedResult ''b'' \<noteq> failedResult ''c''"
    by (simp add: failedResult_def)
  from notification_first_ten[OF h, of "''2025-09-01 08:00:00''"
      "\<lparr> total = 11, both_success = 0, sonnet_only = 0, both_failed = 11 \<rparr>"] h d
  show ?thesis by blast
qed


section \<open>The saved report: facts\<close>

lemma sublist_in_context:
  assumes "sublist x y"
  shows "sublist x (a @ y @ b)"
proof -
  from assms obtain ps ss where "y = ps @ x @ ss" by (auto simp: sublist_def)
  then have "a @ y @ b = (a @ ps) @ x @ (ss @ b)" by simp
  then show ?thesis unfolding sublist_def by blast
qed

lemma sublist_csvField: "sublist s (csvField s)"
proof (cases "str_includes s '',''")
  case True
  have "sublist s ([CHR 0x22] @ s @ [CHR 0x22])" by (rule sublist_appendI)
  with True show ?thesis by (simp add: csvField_def)
next
  case False
  then show ?thesis by (simp add: csvField_def)
qed

lemma sublist_csvRow: "sublist (fullKey r) (csvRow r)"
proof -
  define a where "a = csvField (name r) @ '','' @ csvField (url r) @ '',''"
  define b where "b = '','' @ (if status (sonnet4 r) = Success then label_pass else label_fail)
      @ '','' @ (if status (opus41 r) = Success then label_pass
                 else if status (opus41 r) = Skipped then label_skipped else label_fail)"
  have "csvRow r = a @ csvField (fullKey r) @ b"
    unfolding a_def b_def csvRow_def Let_def by simp
  then show ?thesis
    using sublist_in_context[OF sublist_csvField, of "fullKey r" a b] by simp
qed

lemma sublist_join: "sublist x (join sep (before @ x # after))"
proof (induction before)
  case Nil
  show ?case
  proof (cases after)
    case Nil
    then show ?thesis by simp
  next
    case (Cons y ys)
    have "sublist x ([] @ x @ (sep @ join sep (y # ys)))" by (rule sublist_appendI)
    with Cons show ?thesis by simp
  qed
next
  case (Cons b before)
  obtain z zs where z: "before @ x # after = z # zs" by (cases "before @ x # after") auto
  have j: "join sep ((b # before) @ x # after) = (b @ sep) @ join sep (before @ x # after) @ []"
    by (simp add: z)
  show ?case unfolding j by (rule sublist_in_context[OF Cons.IH])
qed

lemma sublist_csvContent:
  assumes "sublist k (csvRow r)"
  shows "sublist k (csvContent ts (before @ r # after))"
proof -
  have "sublist (csvRow r) (join newline (map csvRow before @ csvRow r # map csvRow after))"
    by (rule sublist_join)
  from sublist_in_context[OF this, of "[]" "[]"] assms
  have "sublist k (join newline (map csvRow (before @ r # after)))"
    using sublist_order.order_trans by fastforce
  from sublist_in_context[OF this, of "csv_generated_at @ ts @ newline @ csv_columns @ newline" "[]"]
  show ?thesis by (simp add: csvContent_def)
qed

text \<open>
  C7 (as amended). Whenever the validation of an account yields a result, the \<open>key\<close>
  field of the result is the first ten characters of the credential followed by three
  dots, and the \<open>fullKey\<close> field is the whole credential. The row of the saved report is
  written from \<open>fullKey\<close>: the whole credential occurs in the row, and in the text of
  every report that has the row.
\<close>

theorem report_row_has_full_credential:
  assumes "testAccountDirect account opts c1 c2 = Some (r, sp)"
  shows "key r = substring0 (key account) 10 @ ''...''
     \<and> fullKey r = key account
     \<and> sublist (key account) (csvRow r)
     \<and> (\<forall>ts before after. sublist (key account) (csvContent ts (before @ r # after)))"
proof -
  have k: "key r = substring0 (key account) 10 @ ''...''" and f: "fullKey r = key account"
    using assms by (auto simp: testAccountDirect_def Let_def split: option.splits if_splits)
  have row: "sublist (key account) (csvRow r)" using sublist_csvRow[of r] f by simp
  have "sublist (key account) (csvContent ts (before @ r # after))" for ts before after
    by (rule sublist_csvContent[OF row])
  with k f row show ?thesis by blast
qed

theorem report_row_has_full_credential_witness:
  "testAccountDirect exampleAccount defaultOptions exampleChild exampleChild
     = Some (exampleResult, [exampleSpawn SONNET4, exampleSpawn OPUS41])
   \<and> key exampleResult = ''cr_0123456...''
   \<and> fullKey exampleResult = ''cr_0123456789abcdef''
   \<and> sublist ''cr_0123456789abcdef'' (csvRow exampleResult)"
proof -
  have k: "key exampleAccount = ''cr_0123456789abcdef''"
    by (simp add: exampleAccount_def)
  from report_row_has_full_credential[OF example_validation] example_validation
  show ?thesis by (simp add: k substring0_def)
qed

text \<open>
  C7 as stated fails: for an account with a credential of 19 characters whose two probes
  succeed, the row of the saved report contains the credential in full.
\<close>

theorem report_row_counterexample:
  "key exampleAccount = ''cr_0123456789abcdef''
   \<and> map_option (csvRow \<circ> fst)
        (testAccountDirect exampleAccount defaultOptions exampleChild exampleChild)
      = Some ''team-1,https://api.example.com,cr_0123456789abcdef,pass,pass''
   \<and> sublist ''cr_0123456789abcdef''
        ''team-1,https://api.example.com,cr_0123456789abcdef,pass,pass''"
proof -
  have row: "csvRow exampleResult
      = ''team-1,https://api.example.com,cr_0123456789abcdef,pass,pass''"
    by (simp add: csvRow_def csvField_def Let_def exampleResult_def exampleReply_def
        label_pass_def)
  have sub: "sublist ''cr_0123456789abcdef''
        ''team-1,https://api.example.com,cr_0123456789abcdef,pass,pass''"
    by (simp add: str_includes_sublist[symmetric])
  have k: "key exampleAccount = ''cr_0123456789abcdef''"
    by (simp add: exampleAccount_def)
  have run: "map_option (csvRow \<circ> fst)
        (testAccountDirect exampleAccount defaultOptions exampleChild exampleChild)
      = Some ''team-1,https://api.example.com,cr_0123456789abcdef,pass,pass''"
    by (simp add: example_validation row)
  from k run sub show ?thesis by blast
qed

section \<open>The question sent to the child\<close>

lemma fire_warmup_not_due: "\<not> due tf 1000 now \<Longrightarrow> fire_warmup v tf now st = st"
  by (simp add: fire_warmup_def)

lemma deliver_data_fields:
  assumes "(\<exists>d. e = Stdout d) \<or> (\<exists>d. e = Stderr d)"
  shows "stdinWrites (deliver v t e st) = stdinWrites st"
    "stdinEnded (deliver v t e st) = stdinEnded st"
    "crashed (deliver v t e st) = crashed st"
    "hasResponded (deliver v t e st) = hasResponded st"
    "stdinDestroyed (deliver v t e st) = stdinDestroyed st"
  using assms by (auto simp: on_stdout_def on_stderr_def)

lemma deliver_close_fields:
  "stdinWrites (deliver v t (Close code) st) = stdinWrites st"
  "stdinEnded (deliver v t (Close code) st) = stdinEnded st"
  "crashed (deliver v t (Close code) st) = crashed st"
  "hasResponded (deliver v t (Close code) st)"
  "stdinDestroyed (deliver v t (Close code) st)"
  by (cases v; simp add: on_close_def on_close_web_def Let_def)+

text \<open>Before the one-second timer is due nothing is written and nothing crashes.\<close>

lemma quiet_before_warmup:
  assumes "dataOnly es" "allBefore tf 1000 es"
    and "stdinWrites st = []" "\<not> stdinEnded st" "\<not> crashed st"
  shows "stdinWrites (feed v tf tmo es st) = [] \<and> \<not> stdinEnded (feed v tf tmo es st)
         \<and> \<not> crashed (feed v tf tmo es st)"
  using assms
proof (induction es arbitrary: st)
  case Nil
  then show ?case by simp
next
  case (Cons x es)
  obtain t' e where x: "x = (t', e)" by (cases x)
  from Cons.prems x have nd: "\<not> due tf 1000 t'" and dp: "dataOnly es" and ab: "allBefore tf 1000 es"
    and de: "(\<exists>d. e = Stdout d) \<or> (\<exists>d. e = Stderr d)"
    by (auto simp: dataOnly_def allBefore_def split: child_event.splits)
  let ?s = "step v tf tmo x st"
  have "stdinWrites ?s = []" "\<not> stdinEnded ?s" "\<not> crashed ?s"
    using Cons.prems(3-5) nd
    by (simp_all add: step_def x Let_def fire_timers_def fire_warmup_not_due fire_timeout_fields
        deliver_data_fields[OF de])
  from Cons.IH[OF dp ab this] show ?case by simp
qed

text \<open>
  Once the probe has responded and the stream is destroyed, nothing is written and
  nothing crashes, in either copy.
\<close>

lemma fire_timers_after_close:
  assumes "hasResponded st" "stdinDestroyed st" "stdinWrites st = []" "\<not> stdinEnded st"
    "\<not> crashed st"
  shows "hasResponded (fire_timers v tf tmo now st) \<and> stdinDestroyed (fire_timers v tf tmo now st)
         \<and> stdinWrites (fire_timers v tf tmo now st) = []
         \<and> \<not> stdinEnded (fire_timers v tf tmo now st) \<and> \<not> crashed (fire_timers v tf tmo now st)"
  using assms
  by (cases v)
     (simp_all add: fire_timers_def fire_warmup_def fire_timeout_def on_timeout_def on_warmup_def
        on_warmup_web_def stdinWriteEnd_def)

lemma quiet_after_close:
  assumes "dataOnly es"
    and "hasResponded st" "stdinDestroyed st" "stdinWrites st = []" "\<not> stdinEnded st"
    "\<not> crashed st"
  shows "hasResponded (feed v tf tmo es st) \<and> stdinDestroyed (feed v tf tmo es st)
         \<and> stdinWrites (feed v tf tmo es st) = [] \<and> \<not> stdinEnded (feed v tf tmo es st)
         \<and> \<not> crashed (feed v tf tmo es st)"
  using assms
proof (induction es arbitrary: st)
  case Nil
  then show ?case by simp
next
  case (Cons x es)
  obtain t' e where x: "x = (t', e)" by (cases x)
  from Cons.prems(1) x have dp: "dataOnly es"
    and de: "(\<exists>d. e = Stdout d) \<or> (\<exists>d. e = Stderr d)"
    by (auto simp: dataOnly_def split: child_event.splits)
  let ?w = "fire_timers v tf tmo t' st"
  let ?s = "step v tf tmo x st"
  note w = fire_timers_after_close[OF Cons.prems(2-6), of v tf tmo t']
  have s: "?s = deliver v t' e ?w"
    using Cons.prems(6) w by (simp add: step_def x Let_def)
  have "hasResponded ?s" "stdinDestroyed ?s" "stdinWrites ?s = []" "\<not> stdinEnded ?s"
    "\<not> crashed ?s"
    unfolding s using w by (simp_all add: deliver_data_fields[OF de])
  from Cons.IH[OF dp this] show ?case by simp
qed

text \<open>
  C9. In either copy of the probe, when the child's \<open>close\<close> event, and every event
  before it, arrives before the one-second timer is due (whatever the child does with
  its standard input, and whether or not it still delivers output afterwards): nothing
  is ever written to the child's standard input, the stream is not ended, nothing
  crashes, and the result object and the one resolved result at the end of the run are
  those the probe had when the child had closed. The batch checker's callback skips the
  two calls; the web server's callback makes them, on a stream that is destroyed by
  then, where they do nothing.
\<close>

theorem write_skipped_after_exit:
  assumes "dataOnly pre" "allBefore tf 1000 pre" "\<not> due tf 1000 t" "dataOnly post"
  shows "let atClose = feed v tf tmo (pre @ [(t, Close code)]) (initialState account modelName b);
             final = run_events v tf tmo (pre @ (t, Close code) # post)
                       (initialState account modelName b)
         in stdinWrites final = [] \<and> \<not> stdinEnded final \<and> \<not> crashed final
            \<and> resolved final = resolved atClose \<and> result final = result atClose
            \<and> (\<exists>r. resolved final = [r])"
proof -
  let ?st0 = "initialState account modelName b"
  let ?p = "feed v tf tmo pre ?st0"
  let ?c = "feed v tf tmo (pre @ [(t, Close code)]) ?st0"
  let ?f = "feed v tf tmo post ?c"
  let ?final = "run_events v tf tmo (pre @ (t, Close code) # post) ?st0"
  have init: "stdinWrites ?st0 = []" "\<not> stdinEnded ?st0" "\<not> crashed ?st0"
    by (simp_all add: initialState_def)
  note p = quiet_before_warmup[OF assms(1,2) init, of v tmo]
  have c_eq: "?c = deliver v t (Close code) (fire_timeout tf tmo t ?p)"
    using p assms(3)
    by (simp add: feed_append step_def Let_def fire_timers_def fire_warmup_not_due
        fire_timeout_fields del: deliver.simps)
  have c: "hasResponded ?c" "stdinDestroyed ?c" "stdinWrites ?c = []" "\<not> stdinEnded ?c"
    "\<not> crashed ?c"
    unfolding c_eq using p by (simp_all add: deliver_close_fields fire_timeout_fields)
  note f = quiet_after_close[OF assms(4) c, of v tf tmo]
  have final_eq: "?final = fire_timers v True tmo (max tmo 1000) ?f"
    by (simp add: run_events_def feed_append)
  have q: "stdinWrites ?final = []" "\<not> stdinEnded ?final" "\<not> crashed ?final"
    "hasResponded ?final"
    unfolding final_eq using fire_timers_after_close[of ?f v True tmo "max tmo 1000"] f
    by simp_all
  have r: "resolved ?final = resolved ?c" "result ?final = result ?c"
    unfolding final_eq
    using feed_responded[OF c(1), of v tf tmo post]
      fire_timers_responded[of ?f v True tmo "max tmo 1000"]
    by simp_all
  have "once ?final" by (simp add: once_run_events once_initial)
  with q(4) have "length (resolved ?final) = 1" by (simp add: once_def)
  then obtain r' where one: "resolved ?final = [r']" by (cases "resolved ?final") auto
  have ex: "\<exists>r. resolved ?final = [r]" using one by blast
  from q(1-3) r ex show ?thesis unfolding Let_def by blast
qed

text \<open>An instance: the web server's probe and a child that exits with code 1 after 10 ms.\<close>

theorem write_skipped_after_exit_witness:
  "dataOnly [] \<and> allBefore False 1000 [] \<and> \<not> due False 1000 10 \<and> dataOnly []
   \<and> stdinWrites (testSingleModel_web exampleAccount SONNET4
        \<lparr> events = [(10, Close (Some 1))], timersFirst = False, closesStdin = False \<rparr>) = []
   \<and> \<not> crashed (testSingleModel_web exampleAccount SONNET4
        \<lparr> events = [(10, Close (Some 1))], timersFirst = False, closesStdin = False \<rparr>)
   \<and> resolved (testSingleModel_web exampleAccount SONNET4
        \<lparr> events = [(10, Close (Some 1))], timersFirst = False, closesStdin = False \<rparr>)
      = resolved (feed WebServer False 60000 [(10, Close (Some 1))]
                   (initialState exampleAccount SONNET4 False))"
proof -
  have h: "dataOnly []" "allBefore False 1000 []" "\<not> due False 1000 10"
    by (simp_all add: dataOnly_def allBefore_def due_def)
  have t: "testSingleModel_web exampleAccount SONNET4
        \<lparr> events = [(10, Close (Some 1))], timersFirst = False, closesStdin = False \<rparr>
      = run_events WebServer False 60000 ([] @ (10, Close (Some 1)) # [])
          (initialState exampleAccount SONNET4 False)"
    by (simp add: testSingleModel_web_def spawnThrows_def exampleAccount_def timerDelay_def)
  from write_skipped_after_exit[OF h h(1), of WebServer 60000 "Some 1" exampleAccount SONNET4 False]
  show ?thesis using h unfolding t by (simp add: Let_def)
qed

end
